theory Spec2Isabelle
  imports Complex_Main "HOL-Library.Word"
begin

unbundle bit_operations_syntax

section \<open>Common values\<close>

text \<open>
  Strings that the services only compare, concatenate or return (resource and action
  tags, reasons, generated codes, error messages) are HOL strings. Exceptions are values:
  every \<^verbatim>\<open>throw\<close> of the services is an \<open>Inl\<close> of the type \<open>exn\<close>, which keeps
  the class of the exception and its message.
\<close>

datatype exn =
    Error string
  | BadRequestException string
  | NotFoundException string
  | ForbiddenException string
  | TypeError string

fun message :: "exn \<Rightarrow> string" where
  "message (Error m) = m"
| "message (BadRequestException m) = m"
| "message (NotFoundException m) = m"
| "message (ForbiddenException m) = m"
| "message (TypeError m) = m"

text \<open>The exception of reading the property \<open>p\<close> of \<^verbatim>\<open>undefined\<close>.\<close>

definition undefined_property :: "string \<Rightarrow> exn" where
  "undefined_property p =
     TypeError (''Cannot read properties of undefined (reading '' @ [CHR 0x27] @ p @
                [CHR 0x27] @ '')'')"

text \<open>A number inside a template literal is printed in decimal.\<close>

definition digit_char :: "nat \<Rightarrow> char" where
  "digit_char d = ''0123456789'' ! d"

function show_nat :: "nat \<Rightarrow> string" where
  "show_nat n = (if n < 10 then [digit_char n] else show_nat (n div 10) @ [digit_char (n mod 10)])"
  by pat_completeness auto
termination
  by (relation "measure id") auto

declare show_nat.simps [simp del]

text \<open>\<^verbatim>\<open>xs.join(sep)\<close> on an array of strings.\<close>

fun join :: "string \<Rightarrow> string list \<Rightarrow> string" where
  "join sep [] = []"
| "join sep [x] = x"
| "join sep (x # y # ys) = x @ sep @ join sep (y # ys)"

section \<open>AccessControlService: COPPA age validation and data retention\<close>

record COPPARequirements =
  minimumAge :: nat
  parentalConsentRequired :: bool
  dataMinimization :: bool
  retentionLimits :: bool

definition getCOPPARequirements :: COPPARequirements where
  "getCOPPARequirements =
     \<lparr>minimumAge = 13, parentalConsentRequired = True,
      dataMinimization = True, retentionLimits = True\<rparr>"

record AgeValidation =
  compliant :: bool
  requiresParentalConsent :: bool
  warnings :: "string list"

text \<open>
  An age is a JSON number; it is modelled as a real (the comparisons with 3, 13 and 18 are
  exact on doubles), the absent argument as \<open>None\<close>. \<^verbatim>\<open>!age\<close> holds for the absent age
  and for 0.
\<close>

definition validateStudentAge :: "real option \<Rightarrow> AgeValidation" where
  "validateStudentAge age =
     (let coppaRequirements = getCOPPARequirements in
      case age of
        None \<Rightarrow>
          \<lparr>compliant = False, requiresParentalConsent = True,
           warnings = [''Age not provided - cannot verify COPPA compliance'']\<rparr>
      | Some a \<Rightarrow>
          if a = 0 then
            \<lparr>compliant = False, requiresParentalConsent = True,
             warnings = [''Age not provided - cannot verify COPPA compliance'']\<rparr>
          else if a < 3 then
            \<lparr>compliant = False, requiresParentalConsent = True,
             warnings = [''Age below minimum expected range'']\<rparr>
          else if a < real (minimumAge coppaRequirements) then
            \<lparr>compliant = True, requiresParentalConsent = True,
             warnings = [''Student under '' @ show_nat (minimumAge coppaRequirements) @
                         '' - COPPA parental consent required'']\<rparr>
          else
            \<lparr>compliant = True, requiresParentalConsent = False, warnings = []\<rparr>)"

text \<open>
  The retention policy table. Each entry of the source is an object with the number of
  years and one flag (\<^verbatim>\<open>afterInactive\<close>, \<^verbatim>\<open>anonymized\<close>, \<^verbatim>\<open>complianceRequired\<close>); it is the
  pair of the two here.
\<close>

record DataRetentionPolicy =
  studentData :: "nat \<times> bool"
  analyticsData :: "nat \<times> bool"
  auditLogs :: "nat \<times> bool"

abbreviation years :: "nat \<times> bool \<Rightarrow> nat" where
  "years \<equiv> fst"

definition getDataRetentionPolicy :: DataRetentionPolicy where
  "getDataRetentionPolicy =
     \<lparr>studentData = (3, True), analyticsData = (2, True), auditLogs = (7, True)\<rparr>"

datatype dataType = Student | Analytics | Audit

fun dataType_name :: "dataType \<Rightarrow> string" where
  "dataType_name Student = ''student''"
| "dataType_name Analytics = ''analytics''"
| "dataType_name Audit = ''audit''"

record RetentionDecision =
  retain :: bool
  retention_reason :: string
  retention_action :: "string option"

text \<open>
  A \<^verbatim>\<open>Date\<close> is its time value, the milliseconds since the epoch. The calendar arithmetic
  of the runtime, \<^verbatim>\<open>d.setFullYear(d.getFullYear() + n)\<close>, is the parameter \<open>addYears\<close>;
  the clock \<^verbatim>\<open>new Date()\<close> is the parameter \<open>now\<close>.
\<close>

type_synonym date = int

definition shouldRetainData ::
  "(date \<Rightarrow> nat \<Rightarrow> date) \<Rightarrow> date \<Rightarrow> dataType \<Rightarrow> date \<Rightarrow> real option \<Rightarrow> RetentionDecision" where
  "shouldRetainData addYears now dataType lastActivity studentAge =
     (let policy = getDataRetentionPolicy;
          (retentionYears, additionalChecks) =
            (case dataType of
               Student \<Rightarrow>
                 (years (studentData policy),
                  (case studentAge of
                     None \<Rightarrow> ''''
                   | Some a \<Rightarrow>
                       if a \<noteq> 0 \<and> a < 13
                       then '' (COPPA compliance - parental consent may affect retention)''
                       else ''''))
             | Analytics \<Rightarrow>
                 (years (analyticsData policy), '' (can be anonymized after retention period)'')
             | Audit \<Rightarrow>
                 (years (auditLogs policy), '' (compliance requirement)''));
          retentionDate = addYears lastActivity retentionYears
      in if now > retentionDate then
           \<lparr>retain = False,
            retention_reason =
              ''Data older than '' @ show_nat retentionYears @ '' years'' @ additionalChecks,
            retention_action = Some (if dataType = Analytics then ''anonymize'' else ''delete'')\<rparr>
         else
           \<lparr>retain = True,
            retention_reason =
              ''Within '' @ show_nat retentionYears @ '' year retention period'' @ additionalChecks,
            retention_action = None\<rparr>)"

section \<open>AccessControlService: the rule table and the access check\<close>

datatype userType = Admin | System | Api | Anonymous

fun userType_name :: "userType \<Rightarrow> string" where
  "userType_name Admin = ''admin''"
| "userType_name System = ''system''"
| "userType_name Api = ''api''"
| "userType_name Anonymous = ''anonymous''"

record AccessContext =
  userId :: "string option"
  userType :: userType
  hubId :: "string option"
  ipAddress :: "string option"
  userAgent :: "string option"
  permissions :: "string list option"

text \<open>
  The optional fields of a rule are options: a rule of the table that leaves
  \<^verbatim>\<open>sensitiveData\<close> or \<^verbatim>\<open>complianceRequired\<close> out has \<open>None\<close> there.
\<close>

record AccessRule =
  resource :: string
  action :: string
  requiredPermissions :: "string list"
  allowedUserTypes :: "userType list"
  requiresHubAccess :: "bool option"
  sensitiveData :: "bool option"
  complianceRequired :: "string list option"

definition accessRules :: "AccessRule list" where
  "accessRules =
   [\<lparr>resource = ''student'', action = ''view'', requiredPermissions = [''student:read''],
     allowedUserTypes = [Admin, System], requiresHubAccess = Some True,
     sensitiveData = Some True, complianceRequired = Some [''COPPA'', ''GDPR'']\<rparr>,
    \<lparr>resource = ''student'', action = ''create'', requiredPermissions = [''student:write''],
     allowedUserTypes = [Admin, System], requiresHubAccess = Some True,
     sensitiveData = Some True, complianceRequired = Some [''COPPA'', ''GDPR'']\<rparr>,
    \<lparr>resource = ''student'', action = ''update'', requiredPermissions = [''student:write''],
     allowedUserTypes = [Admin, System], requiresHubAccess = Some True,
     sensitiveData = Some True, complianceRequired = Some [''COPPA'', ''GDPR'']\<rparr>,
    \<lparr>resource = ''student'', action = ''delete'', requiredPermissions = [''student:delete''],
     allowedUserTypes = [Admin], requiresHubAccess = Some True,
     sensitiveData = Some True,
     complianceRequired = Some [''COPPA'', ''GDPR'', ''RIGHT_TO_BE_FORGOTTEN'']\<rparr>,
    \<lparr>resource = ''student'', action = ''export'', requiredPermissions = [''student:export''],
     allowedUserTypes = [Admin], requiresHubAccess = Some True,
     sensitiveData = Some True, complianceRequired = Some [''GDPR'', ''DATA_PORTABILITY'']\<rparr>,
    \<lparr>resource = ''student'', action = ''authenticate'', requiredPermissions = [],
     allowedUserTypes = [System, Api, Anonymous], requiresHubAccess = Some False,
     sensitiveData = Some False, complianceRequired = None\<rparr>,
    \<lparr>resource = ''device'', action = ''view'', requiredPermissions = [''device:read''],
     allowedUserTypes = [Admin, System], requiresHubAccess = Some True,
     sensitiveData = None, complianceRequired = None\<rparr>,
    \<lparr>resource = ''device'', action = ''create'', requiredPermissions = [''device:write''],
     allowedUserTypes = [Admin, System], requiresHubAccess = Some True,
     sensitiveData = None, complianceRequired = None\<rparr>,
    \<lparr>resource = ''device'', action = ''update'', requiredPermissions = [''device:write''],
     allowedUserTypes = [Admin, System], requiresHubAccess = Some True,
     sensitiveData = None, complianceRequired = None\<rparr>,
    \<lparr>resource = ''device'', action = ''delete'', requiredPermissions = [''device:delete''],
     allowedUserTypes = [Admin], requiresHubAccess = Some True,
     sensitiveData = None, complianceRequired = None\<rparr>,
    \<lparr>resource = ''device'', action = ''register'', requiredPermissions = [],
     allowedUserTypes = [System, Api, Anonymous], requiresHubAccess = Some False,
     sensitiveData = None, complianceRequired = None\<rparr>,
    \<lparr>resource = ''device'', action = ''validate'', requiredPermissions = [],
     allowedUserTypes = [System, Api, Anonymous], requiresHubAccess = Some False,
     sensitiveData = None, complianceRequired = None\<rparr>,
    \<lparr>resource = ''analytics'', action = ''view'', requiredPermissions = [''analytics:read''],
     allowedUserTypes = [Admin, System], requiresHubAccess = Some True,
     sensitiveData = None, complianceRequired = None\<rparr>,
    \<lparr>resource = ''analytics'', action = ''collect'', requiredPermissions = [],
     allowedUserTypes = [System, Api], requiresHubAccess = Some False,
     sensitiveData = None, complianceRequired = None\<rparr>,
    \<lparr>resource = ''analytics'', action = ''export'', requiredPermissions = [''analytics:export''],
     allowedUserTypes = [Admin], requiresHubAccess = Some True,
     sensitiveData = Some True, complianceRequired = Some [''GDPR'']\<rparr>,
    \<lparr>resource = ''hub'', action = ''view'', requiredPermissions = [''hub:read''],
     allowedUserTypes = [Admin, System], requiresHubAccess = Some True,
     sensitiveData = None, complianceRequired = None\<rparr>,
    \<lparr>resource = ''hub'', action = ''manage'', requiredPermissions = [''hub:admin''],
     allowedUserTypes = [Admin], requiresHubAccess = Some True,
     sensitiveData = None, complianceRequired = None\<rparr>,
    \<lparr>resource = ''audit'', action = ''view'', requiredPermissions = [''audit:read''],
     allowedUserTypes = [Admin], requiresHubAccess = Some False,
     sensitiveData = Some True, complianceRequired = None\<rparr>]"

record AccessDecision =
  allowed :: bool
  reason :: "string option"
  complianceFlags :: "string list option"

text \<open>
  \<^verbatim>\<open>try { body } catch (error) { handler }\<close>: the handler runs on the exception of the
  body, and what it returns or throws is the outcome.
\<close>

definition try_catch :: "exn + 'a \<Rightarrow> (exn \<Rightarrow> exn + 'a) \<Rightarrow> exn + 'a" where
  "try_catch body handler = (case body of Inl e \<Rightarrow> handler e | Inr v \<Rightarrow> Inr v)"

text \<open>
  The body of the \<^verbatim>\<open>try\<close> block of \<^verbatim>\<open>checkAccess\<close>. The calls of the logger write a line
  and do not change the decision; they are left out, and with them the only use of
  \<^verbatim>\<open>resourceId\<close>. \<^verbatim>\<open>context.permissions\<close> is truthy when it is an array, the empty
  array too; \<^verbatim>\<open>!context.hubId\<close> holds when the hub id is undefined or the empty string.

  The annotation \<^verbatim>\<open>context: AccessContext\<close> is erased when the service runs, and a caller
  can pass no context: the argument is \<open>None\<close> for \<^verbatim>\<open>undefined\<close> (and for \<^verbatim>\<open>null\<close>, whose
  exception differs in its message only) and \<open>Some\<close> of the object otherwise. The rule
  is looked up without the context; the first read of a property, \<^verbatim>\<open>context.userType\<close>,
  throws a \<^verbatim>\<open>TypeError\<close> when there is no context.
\<close>

definition checkAccess_try ::
  "AccessContext option \<Rightarrow> string \<Rightarrow> string \<Rightarrow> string option \<Rightarrow> exn + AccessDecision" where
  "checkAccess_try context res act resourceId =
     (case find (\<lambda>r. resource r = res \<and> action r = act) accessRules of
        None \<Rightarrow>
          Inr \<lparr>allowed = False, reason = Some ''No access rule defined'', complianceFlags = None\<rparr>
      | Some rule \<Rightarrow>
        (case context of
          None \<Rightarrow> Inl (undefined_property ''userType'')
        | Some ctx \<Rightarrow>
          if userType ctx \<notin> set (allowedUserTypes rule) then
            Inr \<lparr>allowed = False,
                 reason = Some (''User type '' @ [CHR 0x27] @ userType_name (userType ctx) @
                                [CHR 0x27] @ '' not allowed for '' @ res @ '':'' @ act),
                 complianceFlags = None\<rparr>
          else if (case permissions ctx of
                     None \<Rightarrow> False
                   | Some ps \<Rightarrow>
                       length (requiredPermissions rule) > 0 \<and>
                       \<not> list_all (\<lambda>permission. permission \<in> set ps)
                           (requiredPermissions rule)) then
            Inr \<lparr>allowed = False,
                 reason = Some (''Missing required permissions: '' @
                                join '', '' (requiredPermissions rule)),
                 complianceFlags = None\<rparr>
          else if requiresHubAccess rule = Some True \<and>
                  (hubId ctx = None \<or> hubId ctx = Some []) then
            Inr \<lparr>allowed = False,
                 reason = Some ''Hub access required but no hub ID provided'',
                 complianceFlags = None\<rparr>
          else
            Inr \<lparr>allowed = True, reason = None, complianceFlags = complianceRequired rule\<rparr>))"

definition checkAccess_catch :: "exn \<Rightarrow> exn + AccessDecision" where
  "checkAccess_catch error =
     Inr \<lparr>allowed = False, reason = Some ''Access check failed'', complianceFlags = None\<rparr>"

definition checkAccess ::
  "AccessContext option \<Rightarrow> string \<Rightarrow> string \<Rightarrow> string option \<Rightarrow> exn + AccessDecision" where
  "checkAccess context res act resourceId =
     try_catch (checkAccess_try context res act resourceId) checkAccess_catch"

text \<open>
  \<^verbatim>\<open>enforceAccess\<close> throws \<^verbatim>\<open>ForbiddenException(result.reason || 'Access denied')\<close> on a
  denial and returns \<^verbatim>\<open>result.complianceFlags || []\<close> otherwise. Before it throws, the
  line it logs reads \<^verbatim>\<open>context.userType\<close>, which throws a \<^verbatim>\<open>TypeError\<close> when there is no
  context.
\<close>

definition enforceAccess ::
  "AccessContext option \<Rightarrow> string \<Rightarrow> string \<Rightarrow> string option \<Rightarrow> exn + string list" where
  "enforceAccess context res act resourceId =
     (case checkAccess context res act resourceId of
        Inl e \<Rightarrow> Inl e
      | Inr result \<Rightarrow>
          if \<not> allowed result then
            (case context of
               None \<Rightarrow> Inl (undefined_property ''userType'')
             | Some ctx \<Rightarrow>
                 Inl (ForbiddenException
                        (case reason result of
                           None \<Rightarrow> ''Access denied''
                         | Some r \<Rightarrow> if r = [] then ''Access denied'' else r)))
          else Inr (case complianceFlags result of None \<Rightarrow> [] | Some fs \<Rightarrow> fs))"

text \<open>The rule that \<^verbatim>\<open>accessRules.find\<close> returns for a resource and an action.\<close>

abbreviation matching_rule :: "string \<Rightarrow> string \<Rightarrow> AccessRule option" where
  "matching_rule res act \<equiv> find (\<lambda>r. resource r = res \<and> action r = act) accessRules"

abbreviation denies :: "AccessContext \<Rightarrow> string \<Rightarrow> string \<Rightarrow> string option \<Rightarrow> bool" where
  "denies ctx res act resourceId \<equiv>
     (\<exists>d. checkAccess (Some ctx) res act resourceId = Inr d \<and> allowed d = False)"

section \<open>Random sources\<close>

text \<open>
  The services draw from \<^verbatim>\<open>crypto.randomBytes\<close>, \<^verbatim>\<open>crypto.randomInt\<close> and \<^verbatim>\<open>Math.random\<close>.
  A random source is the sequence of raw values still to come; a draw takes the values it
  needs from the front and returns the rest. \<^verbatim>\<open>crypto.randomInt(0, max)\<close> is some integer
  of [0, max), here the raw value modulo \<open>max\<close>; a byte of \<^verbatim>\<open>crypto.randomBytes\<close> is the raw
  value as an 8-bit word; \<^verbatim>\<open>Math.floor(Math.random() * n)\<close> is some integer of [0, n), here
  the raw value modulo \<open>n\<close>. Every outcome of the source's draws is the image of some
  sequence.
\<close>

type_synonym rng = "nat \<Rightarrow> nat"

type_synonym byte = "8 word"

definition skip :: "nat \<Rightarrow> rng \<Rightarrow> rng" where
  "skip n r = (\<lambda>i. r (n + i))"

definition randomInt :: "nat \<Rightarrow> rng \<Rightarrow> nat \<times> rng" where
  "randomInt bound r = (r 0 mod bound, skip 1 r)"

definition randomBytes :: "nat \<Rightarrow> rng \<Rightarrow> byte list \<times> rng" where
  "randomBytes n r = (map (\<lambda>i. of_nat (r i)) [0..<n], skip n r)"

definition random_floor :: "nat \<Rightarrow> rng \<Rightarrow> nat \<times> rng" where
  "random_floor n r = (r 0 mod n, skip 1 r)"

section \<open>SecurityService: random strings and device codes\<close>

definition defaultCharset :: string where
  "defaultCharset = ''ABCDEFGHJKLMNPQRSTUVWXYZ23456789''"

text \<open>
  \<^verbatim>\<open>generateSecureRandom(length, charset?)\<close>: \<^verbatim>\<open>charset || defaultCharset\<close> takes the
  default for an absent and for an empty charset; twice as many bytes are drawn as are
  used; character \<open>i\<close> of the result is \<^verbatim>\<open>chars[randomBytes[i] % chars.length]\<close>.
\<close>

definition generateSecureRandom :: "nat \<Rightarrow> string option \<Rightarrow> rng \<Rightarrow> string \<times> rng" where
  "generateSecureRandom len charset r =
     (let chars = (case charset of
                     None \<Rightarrow> defaultCharset
                   | Some cs \<Rightarrow> if cs = [] then defaultCharset else cs);
          (bytes, r') = randomBytes (len * 2) r
      in (map (\<lambda>i. chars ! (unat (bytes ! i) mod length chars)) [0..<len], r'))"

definition generateDeviceCode :: "rng \<Rightarrow> string \<times> rng" where
  "generateDeviceCode r =
     (let (k, r') = random_floor 3 r in generateSecureRandom (6 + k) None r')"

section \<open>DevicesService and StudentsService: unique codes\<close>

text \<open>
  The outcome of a unique-code generation: the code or the exception, the candidates that
  were generated, in order, and the random source left.
\<close>

record generation =
  outcome :: "exn + string"
  candidates :: "string list"
  remaining :: rng

abbreviation maxAttempts :: nat where
  "maxAttempts \<equiv> 15"

text \<open>
  \<^verbatim>\<open>DevicesService.generateDeviceCode\<close> is the call of \<^verbatim>\<open>SecurityService.generateDeviceCode\<close>.
  The storage is the set of the device codes present: \<^verbatim>\<open>findOne\<close> finds a device exactly
  for a code of the set. The loop of \<^verbatim>\<open>generateUniqueDeviceCode\<close> keeps \<^verbatim>\<open>attempts\<close> and
  \<^verbatim>\<open>codeLength\<close>; the waiting between attempts is left out.
\<close>

function deviceCodeLoop ::
  "string set \<Rightarrow> nat \<Rightarrow> nat \<Rightarrow> string list \<Rightarrow> rng \<Rightarrow> generation" where
  "deviceCodeLoop db attempts codeLength tried r =
     (if attempts < maxAttempts then
        (let (code, r') = generateDeviceCode r in
         if code \<notin> db then
           \<lparr>outcome = Inr code, candidates = tried @ [code], remaining = r'\<rparr>
         else
           deviceCodeLoop db (attempts + 1)
             (if attempts + 1 = 5 then 7 else if attempts + 1 = 10 then 8 else codeLength)
             (tried @ [code]) r')
      else
        \<lparr>outcome = Inl (Error (''Unable to generate unique device code after '' @
                              show_nat maxAttempts @ '' attempts'')),
         candidates = tried, remaining = r\<rparr>)"
  by pat_completeness auto
termination
  by (relation "measure (\<lambda>(db, attempts, codeLength, tried, r). maxAttempts - attempts)") auto

declare deviceCodeLoop.simps [simp del]

definition generateUniqueDeviceCode :: "string set \<Rightarrow> rng \<Rightarrow> generation" where
  "generateUniqueDeviceCode db r = deviceCodeLoop db 0 6 [] r"

definition validateDeviceCodeFormat :: "string \<Rightarrow> bool" where
  "validateDeviceCodeFormat code =
     (4 \<le> length code \<and> length code \<le> 8 \<and>
      list_all (\<lambda>c. c \<in> set ''ABCDEFGHJKMNPQRSTUVWXYZ23456789'') code)"

text \<open>The character class \<^verbatim>\<open>[A-HJ-NP-Z2-9]\<close> of the code patterns.\<close>

definition code_class :: "char \<Rightarrow> bool" where
  "code_class c =
     (let n = (of_char c :: nat)
      in (65 \<le> n \<and> n \<le> 72) \<or> (74 \<le> n \<and> n \<le> 78) \<or> (80 \<le> n \<and> n \<le> 90)
         \<or> (50 \<le> n \<and> n \<le> 57))"

text \<open>
  \<^verbatim>\<open>StudentsService.generateStudentCode(length)\<close>: the loop draws one index per character;
  a result that starts with a digit gets a random letter in place of its first character.
\<close>

fun randomChars :: "string \<Rightarrow> nat \<Rightarrow> rng \<Rightarrow> string \<times> rng" where
  "randomChars chars 0 r = ([], r)"
| "randomChars chars (Suc n) r =
     (let (randomIndex, r1) = randomInt (length chars) r;
          (rest, r2) = randomChars chars n r1
      in (chars ! randomIndex # rest, r2))"

definition is_digit :: "char \<Rightarrow> bool" where
  "is_digit c = (c \<in> set ''0123456789'')"

definition generateStudentCode :: "nat \<Rightarrow> rng \<Rightarrow> (exn + string) \<times> rng" where
  "generateStudentCode len r =
     (let chars = ''ABCDEFGHJKMNPQRSTUVWXYZ23456789'' in
      if len < 3 \<or> len > 6 then
        (Inl (Error ''Student code length must be between 3 and 6 characters''), r)
      else
        let (result, r1) = randomChars chars len r in
        if result \<noteq> [] \<and> is_digit (hd result) then
          let letterChars = ''ABCDEFGHJKMNPQRSTUVWXYZ'';
              (randomLetterIndex, r2) = randomInt (length letterChars) r1
          in (Inr (letterChars ! randomLetterIndex # drop 1 result), r2)
        else (Inr result, r1))"

function studentCodeLoop ::
  "string set \<Rightarrow> nat \<Rightarrow> nat \<Rightarrow> string list \<Rightarrow> rng \<Rightarrow> generation" where
  "studentCodeLoop db attempts codeLength tried r =
     (if attempts < maxAttempts then
        (case generateStudentCode codeLength r of
           (Inl e, r') \<Rightarrow> \<lparr>outcome = Inl e, candidates = tried, remaining = r'\<rparr>
         | (Inr code, r') \<Rightarrow>
             if code \<notin> db then
               \<lparr>outcome = Inr code, candidates = tried @ [code], remaining = r'\<rparr>
             else
               studentCodeLoop db (attempts + 1)
                 (if attempts + 1 = 5 then 5 else if attempts + 1 = 10 then 6 else codeLength)
                 (tried @ [code]) r')
      else
        \<lparr>outcome = Inl (Error (''Unable to generate unique student code after '' @
                              show_nat maxAttempts @ '' attempts'')),
         candidates = tried, remaining = r\<rparr>)"
  by pat_completeness auto
termination
  by (relation "measure (\<lambda>(db, attempts, codeLength, tried, r). maxAttempts - attempts)") auto

declare studentCodeLoop.simps [simp del]

definition generateUniqueStudentCode :: "string set \<Rightarrow> rng \<Rightarrow> generation" where
  "generateUniqueStudentCode db r = studentCodeLoop db 0 4 [] r"

text \<open>
  The code length that the growth rule promises for the candidate generated after a number
  of collisions: the starting length, one more from the fifth collision on, two more from
  the tenth on.
\<close>

definition length_after :: "nat \<Rightarrow> nat \<Rightarrow> nat" where
  "length_after start attempts = (if attempts < 5 then start else if attempts < 10 then start + 1 else start + 2)"

section \<open>SecurityService: field encryption\<close>

subsection \<open>Strings, hexadecimal text and UTF-8\<close>

text \<open>
  The argument of \<^verbatim>\<open>encrypt\<close> and \<^verbatim>\<open>decrypt\<close> is a JavaScript string: a sequence of
  16-bit code units, which need not be well-formed UTF-16. A buffer is a list of bytes.
  \<open>js\<close> turns an ASCII literal into a JavaScript string.
\<close>

type_synonym utf16 = "16 word list"

definition js :: "string \<Rightarrow> utf16" where
  "js s = map of_char s"

text \<open>
  \<^verbatim>\<open>String.prototype.trim\<close> removes the white space and line terminators of ECMAScript
  from both ends.
\<close>

definition is_whitespace :: "16 word \<Rightarrow> bool" where
  "is_whitespace u =
     (u \<in> set [0x0009, 0x000A, 0x000B, 0x000C, 0x000D, 0x0020, 0x00A0, 0x1680,
                0x2000, 0x2001, 0x2002, 0x2003, 0x2004, 0x2005, 0x2006, 0x2007,
                0x2008, 0x2009, 0x200A, 0x2028, 0x2029, 0x202F, 0x205F, 0x3000, 0xFEFF])"

definition trim :: "utf16 \<Rightarrow> utf16" where
  "trim s = rev (dropWhile is_whitespace (rev (dropWhile is_whitespace s)))"

text \<open>\<^verbatim>\<open>s.split(sep)\<close> for a separator of one code unit.\<close>

fun split :: "'a \<Rightarrow> 'a list \<Rightarrow> 'a list list" where
  "split sep [] = [[]]"
| "split sep (c # cs) =
     (if c = sep then [] # split sep cs
      else (case split sep cs of [] \<Rightarrow> [[c]] | p # ps \<Rightarrow> (c # p) # ps))"

text \<open>
  \<^verbatim>\<open>buf.toString('hex')\<close> writes two lower-case digits per byte. Decoding hexadecimal
  text (\<^verbatim>\<open>Buffer.from(s, 'hex')\<close>) reads pairs of digits of either case, stops at the
  first pair that is not hexadecimal, and ignores a last single digit. The input
  encoding \<^verbatim>\<open>'hex'\<close> of \<^verbatim>\<open>update\<close> decodes in the same way a text of even length, the
  only one it takes.
\<close>

definition hex_digit :: "nat \<Rightarrow> 16 word" where
  "hex_digit d = js ''0123456789abcdef'' ! d"

definition to_hex :: "byte list \<Rightarrow> utf16" where
  "to_hex bs = concat (map (\<lambda>b. [hex_digit (unat b div 16), hex_digit (unat b mod 16)]) bs)"

definition unhex :: "16 word \<Rightarrow> nat option" where
  "unhex u =
     (let n = unat u in
      if 48 \<le> n \<and> n \<le> 57 then Some (n - 48)
      else if 97 \<le> n \<and> n \<le> 102 then Some (n - 87)
      else if 65 \<le> n \<and> n \<le> 70 then Some (n - 55)
      else None)"

fun from_hex :: "utf16 \<Rightarrow> byte list" where
  "from_hex (a # b # rest) =
     (case (unhex a, unhex b) of
        (Some x, Some y) \<Rightarrow> of_nat (x * 16 + y) # from_hex rest
      | _ \<Rightarrow> [])"
| "from_hex _ = []"

text \<open>
  UTF-8. Encoding a string (\<^verbatim>\<open>cipher.update(plaintext, 'utf8', ...)\<close>) writes a surrogate
  pair as the four bytes of its code point, an unpaired surrogate as the three bytes of
  U+FFFD, and any other code unit as the one to three bytes of its code point.
\<close>

definition is_high_surrogate :: "16 word \<Rightarrow> bool" where
  "is_high_surrogate u = (0xD800 \<le> unat u \<and> unat u < 0xDC00)"

definition is_low_surrogate :: "16 word \<Rightarrow> bool" where
  "is_low_surrogate u = (0xDC00 \<le> unat u \<and> unat u < 0xE000)"

definition utf8_bytes :: "nat \<Rightarrow> byte list" where
  "utf8_bytes cp =
     (if cp < 0x80 then [of_nat cp]
      else if cp < 0x800 then [of_nat (0xC0 + cp div 64), of_nat (0x80 + cp mod 64)]
      else if cp < 0x10000 then
        [of_nat (0xE0 + cp div 4096), of_nat (0x80 + cp div 64 mod 64),
         of_nat (0x80 + cp mod 64)]
      else
        [of_nat (0xF0 + cp div 262144), of_nat (0x80 + cp div 4096 mod 64),
         of_nat (0x80 + cp div 64 mod 64), of_nat (0x80 + cp mod 64)])"

fun utf8_encode :: "utf16 \<Rightarrow> byte list" where
  "utf8_encode [] = []"
| "utf8_encode [u] =
     (if is_high_surrogate u \<or> is_low_surrogate u then utf8_bytes 0xFFFD
      else utf8_bytes (unat u))"
| "utf8_encode (u # v # vs) =
     (if is_high_surrogate u then
        if is_low_surrogate v then
          utf8_bytes (0x10000 + (unat u - 0xD800) * 0x400 + (unat v - 0xDC00)) @ utf8_encode vs
        else utf8_bytes 0xFFFD @ utf8_encode (v # vs)
      else if is_low_surrogate u then utf8_bytes 0xFFFD @ utf8_encode (v # vs)
      else utf8_bytes (unat u) @ utf8_encode (v # vs))"

text \<open>
  Decoding bytes to a string (\<^verbatim>\<open>decipher.update(..., 'utf8')\<close> and \<^verbatim>\<open>final('utf8')\<close>)
  never fails: a byte sequence that is not the UTF-8 of a code point gives U+FFFD for its
  longest prefix that starts a valid sequence, and decoding goes on at the next byte.
  A code point above U+FFFF is written as its surrogate pair.
\<close>

definition continuation :: "nat \<Rightarrow> nat \<Rightarrow> byte \<Rightarrow> bool" where
  "continuation lower upper b = (lower \<le> unat b \<and> unat b \<le> upper)"

function utf8_code_points :: "byte list \<Rightarrow> nat list" where
  "utf8_code_points [] = []"
| "utf8_code_points (b # bs) =
     (let b0 = unat b in
      if b0 < 0x80 then b0 # utf8_code_points bs
      else if 0xC2 \<le> b0 \<and> b0 \<le> 0xDF then
        (case bs of
           [] \<Rightarrow> [0xFFFD]
         | c1 # r1 \<Rightarrow>
             if continuation 0x80 0xBF c1 then
               ((b0 - 0xC0) * 64 + (unat c1 - 0x80)) # utf8_code_points r1
             else 0xFFFD # utf8_code_points bs)
      else if 0xE0 \<le> b0 \<and> b0 \<le> 0xEF then
        (case bs of
           [] \<Rightarrow> [0xFFFD]
         | c1 # r1 \<Rightarrow>
             if continuation (if b0 = 0xE0 then 0xA0 else 0x80)
                  (if b0 = 0xED then 0x9F else 0xBF) c1 then
               (case r1 of
                  [] \<Rightarrow> [0xFFFD]
                | c2 # r2 \<Rightarrow>
                    if continuation 0x80 0xBF c2 then
                      ((b0 - 0xE0) * 4096 + (unat c1 - 0x80) * 64 + (unat c2 - 0x80)) #
                        utf8_code_points r2
                    else 0xFFFD # utf8_code_points r1)
             else 0xFFFD # utf8_code_points bs)
      else if 0xF0 \<le> b0 \<and> b0 \<le> 0xF4 then
        (case bs of
           [] \<Rightarrow> [0xFFFD]
         | c1 # r1 \<Rightarrow>
             if continuation (if b0 = 0xF0 then 0x90 else 0x80)
                  (if b0 = 0xF4 then 0x8F else 0xBF) c1 then
               (case r1 of
                  [] \<Rightarrow> [0xFFFD]
                | c2 # r2 \<Rightarrow>
                    if continuation 0x80 0xBF c2 then
                      (case r2 of
                         [] \<Rightarrow> [0xFFFD]
                       | c3 # r3 \<Rightarrow>
                           if continuation 0x80 0xBF c3 then
                             ((b0 - 0xF0) * 262144 + (unat c1 - 0x80) * 4096 +
                              (unat c2 - 0x80) * 64 + (unat c3 - 0x80)) #
                               utf8_code_points r3
                           else 0xFFFD # utf8_code_points r2)
                    else 0xFFFD # utf8_code_points r1)
             else 0xFFFD # utf8_code_points bs)
      else 0xFFFD # utf8_code_points bs)"
  by pat_completeness auto
termination
  by (relation "measure length") auto

declare utf8_code_points.simps(2) [simp del]

definition utf16_units :: "nat \<Rightarrow> utf16" where
  "utf16_units cp =
     (if cp < 0x10000 then [of_nat cp]
      else [of_nat (0xD800 + (cp - 0x10000) div 0x400),
            of_nat (0xDC00 + (cp - 0x10000) mod 0x400)])"

definition utf8_decode :: "byte list \<Rightarrow> utf16" where
  "utf8_decode bs = concat (map utf16_units (utf8_code_points bs))"

text \<open>A string is well formed when every surrogate of it is half of a pair.\<close>

fun well_formed :: "utf16 \<Rightarrow> bool" where
  "well_formed [] = True"
| "well_formed [u] = (\<not> is_high_surrogate u \<and> \<not> is_low_surrogate u)"
| "well_formed (u # v # vs) =
     (if is_high_surrogate u then is_low_surrogate v \<and> well_formed vs
      else \<not> is_low_surrogate u \<and> well_formed (v # vs))"

text \<open>The code unit of the separator \<^verbatim>\<open>':'\<close> of a token.\<close>

definition colon :: "16 word" where
  "colon = of_char CHR '':''"

subsection \<open>The cipher\<close>

text \<open>
  AES-256-GCM is the platform's: \<open>cipher\<close> stands for \<^verbatim>\<open>createCipheriv\<close>, \<^verbatim>\<open>setAAD\<close>,
  \<^verbatim>\<open>update\<close>, \<^verbatim>\<open>final\<close> and \<^verbatim>\<open>getAuthTag\<close> on a key, an initialisation vector, the
  additional authenticated data and the plaintext bytes, and gives the ciphertext and the
  authentication tag; \<open>decipher\<close> stands for \<^verbatim>\<open>createDecipheriv\<close>, \<^verbatim>\<open>setAAD\<close>,
  \<^verbatim>\<open>setAuthTag\<close>, \<^verbatim>\<open>update\<close> and \<^verbatim>\<open>final\<close> on the key, the vector, the data, the tag
  and the ciphertext bytes, and gives the plaintext. \<open>None\<close> is a throw of one of these
  calls; for \<open>decipher\<close> that is a vector or a tag it does not accept, or a tag that does
  not verify. One throw of \<^verbatim>\<open>decipher.update\<close> is not the cipher's and is written out in
  \<open>decrypt\<close>: it takes the third segment as text with the encoding \<^verbatim>\<open>'hex'\<close>, and
  rejects a text with an odd number of characters with a \<^verbatim>\<open>TypeError\<close>, written here
  with its code; a text with an even number is decoded as \<^verbatim>\<open>Buffer.from\<close> decodes it.
\<close>

record crypto =
  cipher :: "byte list \<Rightarrow> byte list \<Rightarrow> byte list \<Rightarrow> byte list \<Rightarrow> (byte list \<times> byte list) option"
  decipher :: "byte list \<Rightarrow> byte list \<Rightarrow> byte list \<Rightarrow> byte list \<Rightarrow> byte list \<Rightarrow> byte list option"

definition ivLength :: nat where
  "ivLength = 16"

definition AAD :: "byte list" where
  "AAD = utf8_encode (js ''student-data'')"

text \<open>
  \<^verbatim>\<open>encrypt\<close> and \<^verbatim>\<open>decrypt\<close> of a service whose key is \<open>key\<close>. Both return an empty or
  blank argument as it is. Any throw inside their \<^verbatim>\<open>try\<close> block is caught and thrown
  again as the error \<open>Failed to encrypt data\<close> or \<open>Failed to decrypt data\<close>; the
  exception of a failing call of the cipher is written \<open>Error ''cipher''\<close> or
  \<open>Error ''decipher''\<close> inside the block. The initialisation vector is 16 random bytes.
  In \<open>decrypt\<close> the calls that set up the decipher come before \<^verbatim>\<open>update\<close>; the handler
  replaces the exception of either by the same error, so which comes first does not
  show in the outcome.
\<close>

definition blank :: "utf16 \<Rightarrow> bool" where
  "blank s = (s = [] \<or> length (trim s) = 0)"

definition encrypt :: "crypto \<Rightarrow> byte list \<Rightarrow> utf16 \<Rightarrow> rng \<Rightarrow> (exn + utf16) \<times> rng" where
  "encrypt lib key plaintext r =
     (if blank plaintext then (Inr plaintext, r)
      else
        let (iv, r') = randomBytes ivLength r in
        (try_catch
           (case cipher lib key iv AAD (utf8_encode plaintext) of
              None \<Rightarrow> Inl (Error ''cipher'')
            | Some (encrypted, tag) \<Rightarrow>
                Inr (to_hex iv @ [colon] @ to_hex tag @ [colon] @ to_hex encrypted))
           (\<lambda>error. Inl (Error ''Failed to encrypt data'')), r'))"

definition decrypt :: "crypto \<Rightarrow> byte list \<Rightarrow> utf16 \<Rightarrow> exn + utf16" where
  "decrypt lib key encryptedData =
     (if blank encryptedData then Inr encryptedData
      else
        try_catch
          (let parts = split colon encryptedData in
           if length parts \<noteq> 3 then Inl (Error ''Invalid encrypted data format'')
           else
             let iv = from_hex (parts ! 0);
                 tag = from_hex (parts ! 1);
                 encrypted = parts ! 2
             in if odd (length encrypted) then Inl (TypeError ''ERR_INVALID_ARG_VALUE'')
                else
                  case decipher lib key iv AAD tag (from_hex encrypted) of
                    None \<Rightarrow> Inl (Error ''decipher'')
                  | Some decrypted \<Rightarrow> Inr (utf8_decode decrypted))
          (\<lambda>error. Inl (Error ''Failed to decrypt data'')))"

text \<open>\<^verbatim>\<open>decrypt(encrypt(s))\<close>: the token that \<^verbatim>\<open>encrypt\<close> returns is given to \<^verbatim>\<open>decrypt\<close>.\<close>

definition decrypt_encrypt :: "crypto \<Rightarrow> byte list \<Rightarrow> utf16 \<Rightarrow> rng \<Rightarrow> exn + utf16" where
  "decrypt_encrypt lib key s r =
     (case fst (encrypt lib key s r) of
        Inl e \<Rightarrow> Inl e
      | Inr token \<Rightarrow> decrypt lib key token)"

text \<open>
  What the services expect of the cipher, for the key of the service. It inverts: for a
  vector of 16 bytes, enciphering succeeds and deciphering its output with the same
  vector and data gives the plaintext back. It detects tampering with one output: after
  a change of one byte of the vector, of the tag or of the ciphertext, the lengths and
  all the other bytes kept, deciphering fails. That much is certain of AES-GCM under a key
  whose hash subkey is not zero: the tag it expects is then another one. It is not asked
  to reject a tag that was cut short, which \<^verbatim>\<open>setAuthTag\<close> accepts, nor changes of several
  bytes at once.
\<close>

definition one_byte_changed :: "byte list \<Rightarrow> byte list \<Rightarrow> bool" where
  "one_byte_changed xs ys \<longleftrightarrow>
     length ys = length xs \<and> length (filter (\<lambda>(x, y). x \<noteq> y) (zip xs ys)) = 1"

definition aead_inverts :: "crypto \<Rightarrow> byte list \<Rightarrow> bool" where
  "aead_inverts lib key \<longleftrightarrow>
     (\<forall>iv aad pt. length iv = ivLength \<longrightarrow>
        (\<exists>ct tag. cipher lib key iv aad pt = Some (ct, tag)
                  \<and> decipher lib key iv aad tag ct = Some pt))"

definition detects_tampering ::
  "crypto \<Rightarrow> byte list \<Rightarrow> byte list \<Rightarrow> byte list \<Rightarrow> byte list \<Rightarrow> bool" where
  "detects_tampering lib key iv tag ct \<longleftrightarrow>
     (\<forall>iv' tag' ct'.
        (one_byte_changed iv iv' \<and> tag' = tag \<and> ct' = ct)
        \<or> (iv' = iv \<and> one_byte_changed tag tag' \<and> ct' = ct)
        \<or> (iv' = iv \<and> tag' = tag \<and> one_byte_changed ct ct') \<longrightarrow>
        decipher lib key iv' AAD tag' ct' = None)"

text \<open>
  A small cipher that meets both, for concrete instances: the ciphertext is the plaintext
  reversed, and the tag is the vector followed by the ciphertext.
\<close>

definition toy_crypto :: crypto where
  "toy_crypto =
     \<lparr>cipher = (\<lambda>key iv aad pt. Some (rev pt, iv @ rev pt)),
      decipher = (\<lambda>key iv aad tag ct. if tag = iv @ ct then Some (rev ct) else None)\<rparr>"

section \<open>AuditLoggerService\<close>

text \<open>
  An audit entry, without its generated id, its timestamp and its free-form details.
  \<^verbatim>\<open>logEvent\<close> appends the entry and drops the oldest one when the log has more than
  10000 entries. \<^verbatim>\<open>logStudentDataAccess\<close> takes the actor fields from the context it is
  given and sets the resource, the sensitivity and the compliance flags.
\<close>

record AuditLogEntry =
  log_userId :: "string option"
  log_userType :: userType
  log_action :: string
  log_resource :: string
  log_resourceId :: "string option"
  log_ipAddress :: "string option"
  log_userAgent :: "string option"
  log_success :: bool
  log_errorMessage :: "string option"
  log_hubId :: "string option"
  log_sensitiveData :: "bool option"
  log_complianceFlags :: "string list option"

definition maxLogEntries :: nat where
  "maxLogEntries = 10000"

definition logEvent :: "AuditLogEntry \<Rightarrow> AuditLogEntry list \<Rightarrow> AuditLogEntry list" where
  "logEvent entry entries =
     (let logs = entries @ [entry]
      in if length logs > maxLogEntries then tl logs else logs)"

definition logStudentDataAccess ::
  "AccessContext \<Rightarrow> string \<Rightarrow> string \<Rightarrow> string \<Rightarrow> bool \<Rightarrow> string option \<Rightarrow>
   AuditLogEntry list \<Rightarrow> AuditLogEntry list" where
  "logStudentDataAccess ctx act studentId hub success errorMessage entries =
     logEvent
       \<lparr>log_userId = userId ctx, log_userType = userType ctx, log_action = act,
        log_resource = ''student'', log_resourceId = Some studentId,
        log_ipAddress = ipAddress ctx, log_userAgent = userAgent ctx,
        log_success = success, log_errorMessage = errorMessage, log_hubId = Some hub,
        log_sensitiveData = Some True, log_complianceFlags = Some [''COPPA'', ''GDPR'']\<rparr>
       entries"

section \<open>StudentsService: creating and updating a student\<close>

text \<open>
  The columns of a student row and its three decrypted properties, which are not stored;
  the two timestamps that the database maintains are left out. Names and metadata are
  JavaScript strings; the metadata object of a request is its JSON text.
\<close>

datatype studentStatus = Active | Inactive

record Student =
  student_id :: string
  student_hubId :: string
  studentCode :: string
  firstNameEncrypted :: "utf16 option"
  lastNameEncrypted :: "utf16 option"
  student_grade :: "utf16 option"
  student_age :: "real option"
  metadataEncrypted :: "utf16 option"
  student_status :: studentStatus
  decrypted_firstName :: "utf16 option"
  decrypted_lastName :: "utf16 option"
  decrypted_metadata :: "utf16 option"

record StudentData =
  firstName :: "utf16 option"
  lastName :: "utf16 option"
  grade :: "utf16 option"
  age :: "real option"
  metadata :: "utf16 option"

record UpdateData = StudentData +
  status :: "studentStatus option"

text \<open>
  The state the service works on: the student rows, the hub ids of the hubs that exist,
  and the audit log.
\<close>

record repositories =
  students :: "Student list"
  hubs :: "string set"
  auditLog :: "AuditLogEntry list"

text \<open>
  \<^verbatim>\<open>decryptStudentData\<close> sets the three decrypted properties in turn; a throw of \<^verbatim>\<open>decrypt\<close>
  is caught and leaves the properties not yet set as they are.
\<close>

definition decryptField :: "crypto \<Rightarrow> byte list \<Rightarrow> utf16 option \<Rightarrow> exn + utf16 option" where
  "decryptField lib key v =
     (case v of
        None \<Rightarrow> Inr None
      | Some t \<Rightarrow>
          if t = [] then Inr None
          else (case decrypt lib key t of Inl e \<Rightarrow> Inl e | Inr s \<Rightarrow> Inr (Some s)))"

definition decryptStudentData :: "crypto \<Rightarrow> byte list \<Rightarrow> Student \<Rightarrow> Student" where
  "decryptStudentData lib key student =
     (case decryptField lib key (firstNameEncrypted student) of
        Inl e \<Rightarrow> student
      | Inr first_v \<Rightarrow>
          (let s1 = student\<lparr>decrypted_firstName := first_v\<rparr> in
           case decryptField lib key (lastNameEncrypted student) of
             Inl e \<Rightarrow> s1
           | Inr last_v \<Rightarrow>
               (let s2 = s1\<lparr>decrypted_lastName := last_v\<rparr> in
                case decryptField lib key (metadataEncrypted student) of
                  Inl e \<Rightarrow> s2
                | Inr meta_v \<Rightarrow> s2\<lparr>decrypted_metadata := meta_v\<rparr>)))"

text \<open>
  \<^verbatim>\<open>x ? this.securityService.encrypt(f(x)) : null\<close> for an optional string \<open>x\<close>: absent and
  empty strings give \<^verbatim>\<open>null\<close>.
\<close>

definition encryptField ::
  "crypto \<Rightarrow> byte list \<Rightarrow> (utf16 \<Rightarrow> utf16) \<Rightarrow> utf16 option \<Rightarrow> rng \<Rightarrow> (exn + utf16 option) \<times> rng" where
  "encryptField lib key f v r =
     (case v of
        None \<Rightarrow> (Inr None, r)
      | Some x \<Rightarrow>
          if x = [] then (Inr None, r)
          else (case encrypt lib key (f x) r of
                  (Inl e, r') \<Rightarrow> (Inl e, r')
                | (Inr t, r') \<Rightarrow> (Inr (Some t), r')))"

text \<open>\<^verbatim>\<open>grade?.trim() || null\<close>.\<close>

definition trimmed_or_null :: "utf16 option \<Rightarrow> utf16 option" where
  "trimmed_or_null v =
     (case v of None \<Rightarrow> None | Some g \<Rightarrow> if trim g = [] then None else Some (trim g))"

text \<open>\<^verbatim>\<open>age !== undefined && (age < 3 || age > 18)\<close>.\<close>

definition age_out_of_range :: "real option \<Rightarrow> bool" where
  "age_out_of_range a = (case a of None \<Rightarrow> False | Some x \<Rightarrow> x < 3 \<or> x > 18)"

text \<open>
  The \<^verbatim>\<open>try\<close> block of \<^verbatim>\<open>createStudent\<close>. \<open>newId\<close> is the id that the database gives the
  new row. Every path returns the outcome, the repositories and the random source left.
  The access check is given \<^verbatim>\<open>{ ...context, hubId }\<close>, an object that the method builds
  from the context of the caller, so it always has a context to read.
\<close>

definition createStudent_try ::
  "crypto \<Rightarrow> byte list \<Rightarrow> string \<Rightarrow> string \<Rightarrow> StudentData \<Rightarrow> AccessContext \<Rightarrow>
   repositories \<Rightarrow> rng \<Rightarrow> (exn + Student) \<times> repositories \<times> rng" where
  "createStudent_try lib key newId hub data ctx w r =
     (let contextWithHub = ctx\<lparr>hubId := Some hub\<rparr> in
      case enforceAccess (Some contextWithHub) ''student'' ''create'' None of
        Inl e \<Rightarrow> (Inl e, w, r)
      | Inr flags \<Rightarrow>
          if hub \<notin> hubs w then
            (Inl (NotFoundException ''Hub not found''),
             w\<lparr>auditLog := logStudentDataAccess contextWithHub ''create'' ''unknown'' hub False
                               (Some ''Hub not found'') (auditLog w)\<rparr>, r)
          else if age_out_of_range (age data) then
            (Inl (BadRequestException ''Student age must be between 3 and 18''),
             w\<lparr>auditLog := logStudentDataAccess contextWithHub ''create'' ''unknown'' hub False
                               (Some ''Invalid age provided'') (auditLog w)\<rparr>, r)
          else
            let coppaValidation = validateStudentAge (age data) in
            if \<not> compliant coppaValidation then
              (Inl (BadRequestException
                      (''COPPA compliance issue: '' @ join '', '' (warnings coppaValidation))),
               w\<lparr>auditLog := logStudentDataAccess contextWithHub ''create'' ''unknown'' hub False
                                 (Some (''COPPA compliance issue: '' @
                                        join '', '' (warnings coppaValidation)))
                                 (auditLog w)\<rparr>, r)
            else if length (filter (\<lambda>s. student_hubId s = hub) (students w)) \<ge> 1000 then
              (Inl (BadRequestException ''Maximum student count per hub (1000) exceeded''),
               w\<lparr>auditLog := logStudentDataAccess contextWithHub ''create'' ''unknown'' hub False
                                 (Some ''Maximum student count exceeded'') (auditLog w)\<rparr>, r)
            else
              let g = generateUniqueStudentCode (studentCode ` set (students w)) r in
              case outcome g of
                Inl e \<Rightarrow> (Inl e, w, remaining g)
              | Inr code \<Rightarrow>
                  (case encryptField lib key trim (firstName data) (remaining g) of
                     (Inl e, r1) \<Rightarrow> (Inl e, w, r1)
                   | (Inr first_v, r1) \<Rightarrow>
                       (case encryptField lib key trim (lastName data) r1 of
                          (Inl e, r2) \<Rightarrow> (Inl e, w, r2)
                        | (Inr last_v, r2) \<Rightarrow>
                            (case encryptField lib key id (metadata data) r2 of
                               (Inl e, r3) \<Rightarrow> (Inl e, w, r3)
                             | (Inr meta_v, r3) \<Rightarrow>
                                 (let savedStudent =
                                        \<lparr>student_id = newId, student_hubId = hub,
                                         studentCode = code,
                                         firstNameEncrypted = first_v, lastNameEncrypted = last_v,
                                         student_grade = trimmed_or_null (grade data),
                                         student_age =
                                           (case age data of
                                              None \<Rightarrow> None
                                            | Some a \<Rightarrow> if a = 0 then None else Some a),
                                         metadataEncrypted = meta_v, student_status = Active,
                                         decrypted_firstName = None,
                                         decrypted_lastName = None,
                                         decrypted_metadata = None\<rparr>
                                  in (Inr (decryptStudentData lib key savedStudent),
                                      w\<lparr>students := students w @ [savedStudent],
                                        auditLog := logStudentDataAccess contextWithHub
                                                       ''create'' newId hub True None
                                                       (auditLog w)\<rparr>,
                                      r3))))))"

text \<open>
  \<^verbatim>\<open>createStudent\<close>: the \<^verbatim>\<open>catch\<close> block logs the failure with the caller's context and
  throws the exception again.
\<close>

definition createStudent ::
  "crypto \<Rightarrow> byte list \<Rightarrow> string \<Rightarrow> string \<Rightarrow> StudentData \<Rightarrow> AccessContext \<Rightarrow>
   repositories \<Rightarrow> rng \<Rightarrow> (exn + Student) \<times> repositories \<times> rng" where
  "createStudent lib key newId hub data ctx w r =
     (case createStudent_try lib key newId hub data ctx w r of
        (Inr student, w', r') \<Rightarrow> (Inr student, w', r')
      | (Inl error, w', r') \<Rightarrow>
          (Inl error,
           w'\<lparr>auditLog := logStudentDataAccess ctx ''create'' ''unknown'' hub False
                              (Some (message error)) (auditLog w')\<rparr>, r'))"

text \<open>
  \<^verbatim>\<open>updateStudent\<close>: \<^verbatim>\<open>save\<close> of a row that was read from the table writes it back in the
  place of the row with its id.
\<close>

definition save_existing :: "Student \<Rightarrow> Student list \<Rightarrow> Student list" where
  "save_existing student rows =
     map (\<lambda>s. if student_id s = student_id student then student else s) rows"

definition updateStudent_try ::
  "crypto \<Rightarrow> byte list \<Rightarrow> string \<Rightarrow> UpdateData \<Rightarrow> AccessContext \<Rightarrow>
   repositories \<Rightarrow> rng \<Rightarrow> (exn + Student) \<times> repositories \<times> rng" where
  "updateStudent_try lib key studentId updateData ctx w r =
     (case find (\<lambda>s. student_id s = studentId) (students w) of
        None \<Rightarrow> (Inl (NotFoundException ''Student not found''), w, r)
      | Some student \<Rightarrow>
          let contextWithHub = ctx\<lparr>hubId := Some (student_hubId student)\<rparr> in
          case enforceAccess (Some contextWithHub) ''student'' ''update'' (Some studentId) of
            Inl e \<Rightarrow> (Inl e, w, r)
          | Inr flags \<Rightarrow>
              if age_out_of_range (age updateData) then
                (Inl (BadRequestException ''Student age must be between 3 and 18''),
                 w\<lparr>auditLog := logStudentDataAccess contextWithHub ''update'' studentId
                                   (student_hubId student) False (Some ''Invalid age provided'')
                                   (auditLog w)\<rparr>, r)
              else if age updateData \<noteq> None \<and>
                      \<not> compliant (validateStudentAge (age updateData)) then
                (Inl (BadRequestException
                        (''COPPA compliance issue: '' @
                         join '', '' (warnings (validateStudentAge (age updateData))))),
                 w\<lparr>auditLog := logStudentDataAccess contextWithHub ''update'' studentId
                                   (student_hubId student) False
                                   (Some (''COPPA compliance issue: '' @
                                          join '', '' (warnings (validateStudentAge
                                                                  (age updateData)))))
                                   (auditLog w)\<rparr>, r)
              else
                (case (if firstName updateData = None then (Inr (firstNameEncrypted student), r)
                       else encryptField lib key trim (firstName updateData) r) of
                   (Inl e, r1) \<Rightarrow> (Inl e, w, r1)
                 | (Inr first_v, r1) \<Rightarrow>
                     (case (if lastName updateData = None
                            then (Inr (lastNameEncrypted student), r1)
                            else encryptField lib key trim (lastName updateData) r1) of
                        (Inl e, r2) \<Rightarrow> (Inl e, w, r2)
                      | (Inr last_v, r2) \<Rightarrow>
                          (case (if metadata updateData = None
                                 then (Inr (metadataEncrypted student), r2)
                                 else encryptField lib key id (metadata updateData) r2) of
                             (Inl e, r3) \<Rightarrow> (Inl e, w, r3)
                           | (Inr meta_v, r3) \<Rightarrow>
                               (let savedStudent =
                                      student
                                        \<lparr>firstNameEncrypted := first_v, lastNameEncrypted := last_v,
                                         student_grade :=
                                           (if grade updateData = None then student_grade student
                                            else trimmed_or_null (grade updateData)),
                                         student_age :=
                                           (if age updateData = None then student_age student
                                            else age updateData),
                                         metadataEncrypted := meta_v,
                                         student_status :=
                                           (case status updateData of
                                              None \<Rightarrow> student_status student
                                            | Some st \<Rightarrow> st)\<rparr>
                                in (Inr (decryptStudentData lib key savedStudent),
                                    w\<lparr>students := save_existing savedStudent (students w),
                                      auditLog := logStudentDataAccess contextWithHub
                                                     ''update'' studentId
                                                     (student_hubId student) True None
                                                     (auditLog w)\<rparr>,
                                    r3))))))"

definition updateStudent ::
  "crypto \<Rightarrow> byte list \<Rightarrow> string \<Rightarrow> UpdateData \<Rightarrow> AccessContext \<Rightarrow>
   repositories \<Rightarrow> rng \<Rightarrow> (exn + Student) \<times> repositories \<times> rng" where
  "updateStudent lib key studentId updateData ctx w r =
     (case updateStudent_try lib key studentId updateData ctx w r of
        (Inr student, w', r') \<Rightarrow> (Inr student, w', r')
      | (Inl error, w', r') \<Rightarrow>
          (Inl error,
           w'\<lparr>auditLog := logStudentDataAccess ctx ''update'' studentId ''unknown'' False
                              (Some (message error)) (auditLog w')\<rparr>, r'))"

section \<open>Properties\<close>

subsection \<open>Age validation\<close>

lemma validateStudentAge_missing:
  "validateStudentAge None =
     \<lparr>compliant = False, requiresParentalConsent = True,
      warnings = [''Age not provided - cannot verify COPPA compliance'']\<rparr>"
  by (simp add: validateStudentAge_def)

lemma validateStudentAge_below:
  "a < 3 \<Longrightarrow> \<not> compliant (validateStudentAge (Some a))"
  by (simp add: validateStudentAge_def)

lemma validateStudentAge_child:
  "3 \<le> a \<Longrightarrow> a < 13 \<Longrightarrow>
     compliant (validateStudentAge (Some a)) \<and> requiresParentalConsent (validateStudentAge (Some a))"
  by (simp add: validateStudentAge_def getCOPPARequirements_def)

lemma validateStudentAge_teen:
  "13 \<le> a \<Longrightarrow>
     compliant (validateStudentAge (Some a)) \<and> \<not> requiresParentalConsent (validateStudentAge (Some a))"
  by (simp add: validateStudentAge_def getCOPPARequirements_def)

text \<open>
  C6. \<open>validateStudentAge\<close> answers: for a missing age, not compliant, consent required and
  one warning; for an age below 3, not compliant; for an age in [3, 13), compliant with
  consent required; for an age of 13 or more, compliant with no consent required. So 12
  requires consent, 13 does not, and 2 is not compliant.
\<close>

theorem validateStudentAge_cases:
  "compliant (validateStudentAge None) = False
   \<and> requiresParentalConsent (validateStudentAge None) = True
   \<and> warnings (validateStudentAge None) \<noteq> []
   \<and> (a < 3 \<longrightarrow> compliant (validateStudentAge (Some a)) = False)
   \<and> (3 \<le> a \<and> a < 13 \<longrightarrow>
        compliant (validateStudentAge (Some a)) = True
        \<and> requiresParentalConsent (validateStudentAge (Some a)) = True)
   \<and> (13 \<le> a \<longrightarrow>
        compliant (validateStudentAge (Some a)) = True
        \<and> requiresParentalConsent (validateStudentAge (Some a)) = False)
   \<and> requiresParentalConsent (validateStudentAge (Some 12)) = True
   \<and> requiresParentalConsent (validateStudentAge (Some 13)) = False
   \<and> compliant (validateStudentAge (Some 2)) = False"
  using validateStudentAge_below [of a] validateStudentAge_child [of a]
    validateStudentAge_teen [of a] validateStudentAge_child [of 12]
    validateStudentAge_teen [of 13] validateStudentAge_below [of 2]
  by (simp add: validateStudentAge_missing)

theorem validateStudentAge_cases_witness:
  "compliant (validateStudentAge (Some 2.5)) = False
   \<and> compliant (validateStudentAge (Some 7)) = True
   \<and> requiresParentalConsent (validateStudentAge (Some 7)) = True
   \<and> compliant (validateStudentAge (Some 16)) = True
   \<and> requiresParentalConsent (validateStudentAge (Some 16)) = False"
  using validateStudentAge_cases [of "2.5"] validateStudentAge_cases [of 7]
    validateStudentAge_cases [of 16]
  by simp

subsection \<open>Data retention\<close>

text \<open>
  C8. \<open>shouldRetainData\<close> takes as cutoff the last activity plus N years, with N = 3 for
  student data, 2 for analytics and 7 for audit logs. When the current time is past the
  cutoff it answers \<open>retain = False\<close> with the action \<open>anonymize\<close> for analytics and
  \<open>delete\<close> for student and audit data; otherwise it answers \<open>retain = True\<close>.
\<close>

theorem shouldRetainData_cutoff:
  "(now > addYears lastActivity (case dataType of Student \<Rightarrow> 3 | Analytics \<Rightarrow> 2 | Audit \<Rightarrow> 7) \<longrightarrow>
      retain (shouldRetainData addYears now dataType lastActivity studentAge) = False
      \<and> retention_action (shouldRetainData addYears now dataType lastActivity studentAge) =
          Some (case dataType of Student \<Rightarrow> ''delete'' | Analytics \<Rightarrow> ''anonymize''
                | Audit \<Rightarrow> ''delete''))
   \<and> (\<not> now > addYears lastActivity (case dataType of Student \<Rightarrow> 3 | Analytics \<Rightarrow> 2 | Audit \<Rightarrow> 7) \<longrightarrow>
      retain (shouldRetainData addYears now dataType lastActivity studentAge) = True)"
  by (cases dataType) (simp_all add: shouldRetainData_def getDataRetentionPolicy_def Let_def)

theorem shouldRetainData_cutoff_witness:
  "retain (shouldRetainData (\<lambda>d n. d + 365 * int n) 2000 Student 0 None) = False
   \<and> retention_action (shouldRetainData (\<lambda>d n. d + 365 * int n) 2000 Student 0 None) =
       Some ''delete''
   \<and> retention_action (shouldRetainData (\<lambda>d n. d + 365 * int n) 2000 Analytics 0 None) =
       Some ''anonymize''
   \<and> retain (shouldRetainData (\<lambda>d n. d + 365 * int n) 2000 Audit 0 None) = True"
  using shouldRetainData_cutoff [of "\<lambda>d n. d + 365 * int n" 0 Student 2000 None]
    shouldRetainData_cutoff [of "\<lambda>d n. d + 365 * int n" 0 Analytics 2000 None]
    shouldRetainData_cutoff [of "\<lambda>d n. d + 365 * int n" 0 Audit 2000 None]
  by simp

subsection \<open>The access check\<close>

lemma checkAccess_no_rule:
  "matching_rule res act = None \<Longrightarrow>
   checkAccess (Some ctx) res act rid =
     Inr \<lparr>allowed = False, reason = Some ''No access rule defined'', complianceFlags = None\<rparr>"
  by (simp add: checkAccess_def try_catch_def checkAccess_try_def)

lemma checkAccess_userType:
  "matching_rule res act = Some rule \<Longrightarrow> userType ctx \<notin> set (allowedUserTypes rule) \<Longrightarrow>
   denies ctx res act rid"
  by (simp add: checkAccess_def try_catch_def checkAccess_try_def)

lemma checkAccess_permissions:
  "matching_rule res act = Some rule \<Longrightarrow> permissions ctx = Some ps \<Longrightarrow>
   \<not> set (requiredPermissions rule) \<subseteq> set ps \<Longrightarrow> denies ctx res act rid"
  by (auto simp: checkAccess_def try_catch_def checkAccess_try_def list_all_iff)

lemma checkAccess_hub:
  "matching_rule res act = Some rule \<Longrightarrow> requiresHubAccess rule = Some True \<Longrightarrow>
   hubId ctx = None \<or> hubId ctx = Some [] \<Longrightarrow> denies ctx res act rid"
  by (auto simp: checkAccess_def try_catch_def checkAccess_try_def split: option.splits)

lemma checkAccess_allowed:
  "matching_rule res act = Some rule \<Longrightarrow> userType ctx \<in> set (allowedUserTypes rule) \<Longrightarrow>
   permissions ctx = None \<or> (\<exists>ps. permissions ctx = Some ps \<and> set (requiredPermissions rule) \<subseteq> set ps) \<Longrightarrow>
   \<not> (requiresHubAccess rule = Some True \<and> (hubId ctx = None \<or> hubId ctx = Some [])) \<Longrightarrow>
   checkAccess (Some ctx) res act rid =
     Inr \<lparr>allowed = True, reason = None, complianceFlags = complianceRequired rule\<rparr>"
  by (auto simp: checkAccess_def try_catch_def checkAccess_try_def list_all_iff
      split: option.splits)

text \<open>
  C2 (amended). \<open>checkAccess\<close> answers \<open>allowed = False\<close> with the reason
  \<open>No access rule defined\<close> when no rule matches the resource and the action. With a
  matching rule it denies when the user type is not one of the rule's allowed user types;
  it denies when the context carries permissions that do not contain every required
  permission, and skips that check when the context carries none; it denies when the rule
  requires hub access and the hub id of the context is absent or the empty string;
  otherwise it answers \<open>allowed = True\<close> with the rule's compliance flags.
\<close>

theorem checkAccess_decision:
  "(matching_rule res act = None \<longrightarrow>
      checkAccess (Some ctx) res act rid =
        Inr \<lparr>allowed = False, reason = Some ''No access rule defined'', complianceFlags = None\<rparr>)
   \<and> (\<forall>rule. matching_rule res act = Some rule \<longrightarrow>
        (userType ctx \<notin> set (allowedUserTypes rule) \<longrightarrow> denies ctx res act rid)
      \<and> (\<forall>ps. permissions ctx = Some ps \<and> \<not> set (requiredPermissions rule) \<subseteq> set ps \<longrightarrow>
            denies ctx res act rid)
      \<and> (requiresHubAccess rule = Some True \<and> (hubId ctx = None \<or> hubId ctx = Some []) \<longrightarrow>
            denies ctx res act rid)
      \<and> (userType ctx \<in> set (allowedUserTypes rule)
          \<and> (permissions ctx = None
              \<or> (\<exists>ps. permissions ctx = Some ps \<and> set (requiredPermissions rule) \<subseteq> set ps))
          \<and> \<not> (requiresHubAccess rule = Some True \<and> (hubId ctx = None \<or> hubId ctx = Some []))
          \<longrightarrow> checkAccess (Some ctx) res act rid =
                Inr \<lparr>allowed = True, reason = None,
                     complianceFlags = complianceRequired rule\<rparr>))"
proof -
  have none: "matching_rule res act = None \<longrightarrow>
      checkAccess (Some ctx) res act rid =
        Inr \<lparr>allowed = False, reason = Some ''No access rule defined'', complianceFlags = None\<rparr>"
    using checkAccess_no_rule by blast
  have some: "\<And>rule. matching_rule res act = Some rule \<Longrightarrow>
        (userType ctx \<notin> set (allowedUserTypes rule) \<longrightarrow> denies ctx res act rid)
      \<and> (\<forall>ps. permissions ctx = Some ps \<and> \<not> set (requiredPermissions rule) \<subseteq> set ps \<longrightarrow>
            denies ctx res act rid)
      \<and> (requiresHubAccess rule = Some True \<and> (hubId ctx = None \<or> hubId ctx = Some []) \<longrightarrow>
            denies ctx res act rid)
      \<and> (userType ctx \<in> set (allowedUserTypes rule)
          \<and> (permissions ctx = None
              \<or> (\<exists>ps. permissions ctx = Some ps \<and> set (requiredPermissions rule) \<subseteq> set ps))
          \<and> \<not> (requiresHubAccess rule = Some True \<and> (hubId ctx = None \<or> hubId ctx = Some []))
          \<longrightarrow> checkAccess (Some ctx) res act rid =
                Inr \<lparr>allowed = True, reason = None,
                     complianceFlags = complianceRequired rule\<rparr>)"
  proof -
    fix rule
    assume m: "matching_rule res act = Some rule"
    show "?thesis rule"
      using checkAccess_userType [OF m, of ctx rid] checkAccess_permissions [OF m, of ctx _ rid]
        checkAccess_hub [OF m, of ctx rid] checkAccess_allowed [OF m, of ctx rid]
      by blast
  qed
  from none some show ?thesis by blast
qed

theorem checkAccess_decision_witness:
  "checkAccess
     (Some \<lparr>userId = None, userType = System, hubId = Some ''HUB-1'', ipAddress = None,
      userAgent = None, permissions = None\<rparr>) ''unknown-resource'' ''unknown-action'' None =
     Inr \<lparr>allowed = False, reason = Some ''No access rule defined'', complianceFlags = None\<rparr>
   \<and> checkAccess
     (Some \<lparr>userId = None, userType = System, hubId = Some ''HUB-1'', ipAddress = None,
      userAgent = None, permissions = None\<rparr>) ''student'' ''create'' None =
     Inr \<lparr>allowed = True, reason = None, complianceFlags = Some [''COPPA'', ''GDPR'']\<rparr>
   \<and> denies
     \<lparr>userId = None, userType = System, hubId = Some ''HUB-1'', ipAddress = None,
      userAgent = None, permissions = Some []\<rparr> ''student'' ''create'' None
   \<and> denies
     \<lparr>userId = None, userType = Anonymous, hubId = Some ''HUB-1'', ipAddress = None,
      userAgent = None, permissions = None\<rparr> ''student'' ''create'' None
   \<and> denies
     \<lparr>userId = None, userType = System, hubId = None, ipAddress = None,
      userAgent = None, permissions = None\<rparr> ''student'' ''create'' None"
proof -
  have r0: "matching_rule ''unknown-resource'' ''unknown-action'' = None"
    by (simp add: accessRules_def)
  have r1: "matching_rule ''student'' ''create'' =
      Some \<lparr>resource = ''student'', action = ''create'', requiredPermissions = [''student:write''],
            allowedUserTypes = [Admin, System], requiresHubAccess = Some True,
            sensitiveData = Some True, complianceRequired = Some [''COPPA'', ''GDPR'']\<rparr>"
    by (simp add: accessRules_def)
  show ?thesis
    using checkAccess_decision [of "''unknown-resource''" "''unknown-action''"
        "\<lparr>userId = None, userType = System, hubId = Some ''HUB-1'', ipAddress = None,
          userAgent = None, permissions = None\<rparr>" None]
      checkAccess_decision [of "''student''" "''create''"
        "\<lparr>userId = None, userType = System, hubId = Some ''HUB-1'', ipAddress = None,
          userAgent = None, permissions = None\<rparr>" None]
      checkAccess_decision [of "''student''" "''create''"
        "\<lparr>userId = None, userType = System, hubId = Some ''HUB-1'', ipAddress = None,
          userAgent = None, permissions = Some []\<rparr>" None]
      checkAccess_decision [of "''student''" "''create''"
        "\<lparr>userId = None, userType = Anonymous, hubId = Some ''HUB-1'', ipAddress = None,
          userAgent = None, permissions = None\<rparr>" None]
      checkAccess_decision [of "''student''" "''create''"
        "\<lparr>userId = None, userType = System, hubId = None, ipAddress = None,
          userAgent = None, permissions = None\<rparr>" None]
    by (simp add: r0 r1)
qed

text \<open>
  C2 as first stated has the access allowed whenever the hub id is present. A context
  whose hub id is the empty string meets every other condition of the rule for viewing
  students, and is denied.
\<close>

theorem checkAccess_empty_hubId_counterexample:
  "matching_rule ''student'' ''view'' =
     Some \<lparr>resource = ''student'', action = ''view'', requiredPermissions = [''student:read''],
           allowedUserTypes = [Admin, System], requiresHubAccess = Some True,
           sensitiveData = Some True, complianceRequired = Some [''COPPA'', ''GDPR'']\<rparr>
   \<and> hubId \<lparr>userId = None, userType = Admin, hubId = Some [], ipAddress = None,
            userAgent = None, permissions = None\<rparr> \<noteq> None
   \<and> checkAccess
       (Some \<lparr>userId = None, userType = Admin, hubId = Some [], ipAddress = None,
        userAgent = None, permissions = None\<rparr>) ''student'' ''view'' None =
     Inr \<lparr>allowed = False, reason = Some ''Hub access required but no hub ID provided'',
          complianceFlags = None\<rparr>"
  by (simp add: accessRules_def checkAccess_def try_catch_def checkAccess_try_def)

lemma checkAccess_try_throws_iff:
  "(\<exists>e. checkAccess_try context res act rid = Inl e) =
     (context = None \<and> matching_rule res act \<noteq> None)"
  by (simp add: checkAccess_try_def split: option.splits)

text \<open>
  C10. \<open>checkAccess\<close> never throws: for every context, also a missing one, and every
  resource and action it returns a decision. Its \<^verbatim>\<open>try\<close> block does throw, exactly when
  a rule matches and there is no context to read the user type from; and whenever the
  block throws, \<open>checkAccess\<close> returns the decision \<open>allowed = False\<close> with the reason
  \<open>Access check failed\<close> in place of the exception.
\<close>

theorem checkAccess_never_throws:
  "(\<exists>d. checkAccess context res act rid = Inr d)
   \<and> (\<forall>e. checkAccess_try context res act rid = Inl e \<longrightarrow>
         checkAccess context res act rid =
           Inr \<lparr>allowed = False, reason = Some ''Access check failed'',
                complianceFlags = None\<rparr>)
   \<and> ((\<exists>e. checkAccess_try context res act rid = Inl e) =
        (context = None \<and> matching_rule res act \<noteq> None))"
proof (intro conjI allI impI)
  show "\<exists>d. checkAccess context res act rid = Inr d"
    by (cases "checkAccess_try context res act rid")
      (simp_all add: checkAccess_def try_catch_def checkAccess_catch_def)
next
  fix e
  assume "checkAccess_try context res act rid = Inl e"
  then show "checkAccess context res act rid =
      Inr \<lparr>allowed = False, reason = Some ''Access check failed'', complianceFlags = None\<rparr>"
    by (simp add: checkAccess_def try_catch_def checkAccess_catch_def)
next
  show "(\<exists>e. checkAccess_try context res act rid = Inl e) =
      (context = None \<and> matching_rule res act \<noteq> None)"
    by (rule checkAccess_try_throws_iff)
qed

theorem checkAccess_never_throws_witness:
  "checkAccess_try None ''student'' ''create'' None = Inl (undefined_property ''userType'')
   \<and> checkAccess None ''student'' ''create'' None =
     Inr \<lparr>allowed = False, reason = Some ''Access check failed'', complianceFlags = None\<rparr>
   \<and> (\<exists>d. checkAccess
          (Some \<lparr>userId = None, userType = Anonymous, hubId = None, ipAddress = None,
                 userAgent = None, permissions = Some [''x'']\<rparr>)
          ''hub'' ''manage'' (Some ''h'') = Inr d)"
proof -
  have b: "checkAccess_try None ''student'' ''create'' None =
      Inl (undefined_property ''userType'')"
    by (simp add: checkAccess_try_def accessRules_def)
  show ?thesis
    using checkAccess_never_throws [of None "''student''" "''create''" None]
      checkAccess_never_throws [of
        "Some \<lparr>userId = None, userType = Anonymous, hubId = None, ipAddress = None,
               userAgent = None, permissions = Some [''x'']\<rparr>" "''hub''" "''manage''"
        "Some ''h''"]
      b
    by simp
qed

subsection \<open>Generated codes\<close>

lemma show_nat_15: "show_nat 15 = ''15''"
  by code_simp

lemma randomChars_length: "length (fst (randomChars chars n r)) = n"
  by (induction n arbitrary: r) (simp_all add: Let_def case_prod_beta)

lemma randomChars_set: "chars \<noteq> [] \<Longrightarrow> set (fst (randomChars chars n r)) \<subseteq> set chars"
  by (induction n arbitrary: r) (simp_all add: Let_def case_prod_beta randomInt_def)

lemma generateSecureRandom_length: "length (fst (generateSecureRandom len cs r)) = len"
  by (simp add: generateSecureRandom_def Let_def case_prod_beta)

lemma generateSecureRandom_default_set:
  "set (fst (generateSecureRandom len None r)) \<subseteq> set defaultCharset"
proof -
  have "defaultCharset \<noteq> []" by (simp add: defaultCharset_def)
  then show ?thesis
    by (auto simp: generateSecureRandom_def Let_def case_prod_beta)
qed

lemma generateDeviceCode_length:
  "6 \<le> length (fst (generateDeviceCode r)) \<and> length (fst (generateDeviceCode r)) \<le> 8"
proof -
  have "r 0 mod 3 \<le> 2" by arith
  then show ?thesis
    by (simp add: generateDeviceCode_def random_floor_def generateSecureRandom_length)
qed

lemma generateDeviceCode_set:
  "set (fst (generateDeviceCode r)) \<subseteq> set defaultCharset"
  by (simp add: generateDeviceCode_def random_floor_def generateSecureRandom_default_set) 

lemma generateStudentCode_format:
  assumes "generateStudentCode len r = (Inr code, r')"
  shows "length code = len \<and> 3 \<le> len \<and> len \<le> 6
    \<and> set code \<subseteq> set ''ABCDEFGHJKMNPQRSTUVWXYZ23456789''
    \<and> hd code \<in> set ''ABCDEFGHJKMNPQRSTUVWXYZ''"
proof -
  let ?chars = "''ABCDEFGHJKMNPQRSTUVWXYZ23456789''"
  let ?letters = "''ABCDEFGHJKMNPQRSTUVWXYZ''"
  let ?res = "fst (randomChars ?chars len r)"
  from assms have len: "3 \<le> len" "len \<le> 6"
    by (auto simp: generateStudentCode_def Let_def split: if_splits)
  have l: "length ?res = len" by (rule randomChars_length)
  have s: "set ?res \<subseteq> set ?chars" by (rule randomChars_set) simp
  have ne: "?res \<noteq> []" using l len by auto
  show ?thesis
  proof (cases "is_digit (hd ?res)")
    case True
    with assms len ne obtain k where c: "code = ?letters ! (k mod length ?letters) # drop 1 ?res"
      by (auto simp: generateStudentCode_def Let_def case_prod_beta randomInt_def)
    have "?letters ! (k mod length ?letters) \<in> set ?letters"
      by (rule nth_mem) simp
    moreover have "set ?letters \<subseteq> set ?chars" by auto
    moreover have "set (drop 1 ?res) \<subseteq> set ?chars"
      using s set_drop_subset by fastforce
    ultimately show ?thesis using c l len ne by (cases ?res) auto
  next
    case False
    with assms len ne have c: "code = ?res"
      by (auto simp: generateStudentCode_def Let_def case_prod_beta)
    have "hd ?res \<in> set ?chars" using s ne by (cases ?res) auto
    with False have "hd ?res \<in> set ?letters" by (auto simp: is_digit_def)
    with c l len s show ?thesis by simp
  qed
qed

lemma defaultCharset_class: "c \<in> set defaultCharset \<Longrightarrow> code_class c"
  by (auto simp: defaultCharset_def code_class_def)

lemma generateDeviceCode_pattern:
  "6 \<le> length (fst (generateDeviceCode r)) \<and> length (fst (generateDeviceCode r)) \<le> 8
   \<and> list_all code_class (fst (generateDeviceCode r))"
  using generateDeviceCode_length [of r] generateDeviceCode_set [of r] defaultCharset_class
  by (auto simp: list_all_iff)

lemma generateStudentCode_pattern:
  assumes "generateStudentCode len r = (Inr code, r')"
  shows "3 \<le> length code \<and> length code \<le> 6 \<and> list_all code_class code
    \<and> hd code \<in> set ''ABCDEFGHJKMNPQRSTUVWXYZ''"
proof -
  have "\<And>c. c \<in> set ''ABCDEFGHJKMNPQRSTUVWXYZ23456789'' \<Longrightarrow> code_class c"
    by (auto simp: code_class_def)
  then show ?thesis
    using generateStudentCode_format [OF assms] by (auto simp: list_all_iff)
qed

lemma deviceCodeLoop_fresh:
  "attempts \<le> 15 \<Longrightarrow> length tried = attempts \<Longrightarrow>
   (\<exists>code. outcome (deviceCodeLoop db attempts codeLength tried r) = Inr code \<and> code \<notin> db
      \<and> length (candidates (deviceCodeLoop db attempts codeLength tried r)) \<le> 15
      \<and> last (candidates (deviceCodeLoop db attempts codeLength tried r)) = code)
   \<or> (outcome (deviceCodeLoop db attempts codeLength tried r) =
        Inl (Error ''Unable to generate unique device code after 15 attempts'')
      \<and> length (candidates (deviceCodeLoop db attempts codeLength tried r)) = 15)"
proof (induction db attempts codeLength tried r rule: deviceCodeLoop.induct)
  case (1 db attempts codeLength tried r)
  show ?case
  proof (cases "attempts < 15")
    case False
    with "1.prems" show ?thesis
      by (subst (1 2 3 4 5) deviceCodeLoop.simps) (simp add: show_nat_15)
  next
    case True
    obtain code r' where g: "generateDeviceCode r = (code, r')" by (cases "generateDeviceCode r")
    show ?thesis
    proof (cases "code \<in> db")
      case False
      with True g "1.prems" show ?thesis
        by (subst (1 2 3 4 5) deviceCodeLoop.simps) simp
    next
      case c: True
      have "deviceCodeLoop db attempts codeLength tried r =
          deviceCodeLoop db (attempts + 1)
             (if attempts + 1 = 5 then 7 else if attempts + 1 = 10 then 8 else codeLength)
             (tried @ [code]) r'"
        using True g c by (subst deviceCodeLoop.simps) simp
      moreover have "attempts + 1 \<le> 15" "length (tried @ [code]) = attempts + 1"
        using True "1.prems" by auto
      ultimately show ?thesis
        using "1.IH" [OF True g [symmetric] refl _] c by simp
    qed
  qed
qed

lemma generateStudentCode_Inr:
  "3 \<le> len \<Longrightarrow> len \<le> 6 \<Longrightarrow> \<exists>code r'. generateStudentCode len r = (Inr code, r')"
  by (auto simp: generateStudentCode_def Let_def case_prod_beta)

lemma studentCodeLoop_fresh:
  "attempts \<le> 15 \<Longrightarrow> length tried = attempts \<Longrightarrow> codeLength = length_after 4 attempts \<Longrightarrow>
   (\<exists>code. outcome (studentCodeLoop db attempts codeLength tried r) = Inr code \<and> code \<notin> db
      \<and> length (candidates (studentCodeLoop db attempts codeLength tried r)) \<le> 15
      \<and> last (candidates (studentCodeLoop db attempts codeLength tried r)) = code)
   \<or> (outcome (studentCodeLoop db attempts codeLength tried r) =
        Inl (Error ''Unable to generate unique student code after 15 attempts'')
      \<and> length (candidates (studentCodeLoop db attempts codeLength tried r)) = 15)"
proof (induction db attempts codeLength tried r rule: studentCodeLoop.induct)
  case (1 db attempts codeLength tried r)
  show ?case
  proof (cases "attempts < 15")
    case False
    with "1.prems" show ?thesis
      by (subst (1 2 3 4 5) studentCodeLoop.simps) (simp add: show_nat_15)
  next
    case True
    have "3 \<le> codeLength" "codeLength \<le> 6"
      using "1.prems" by (auto simp: length_after_def)
    then obtain code r' where g: "generateStudentCode codeLength r = (Inr code, r')"
      using generateStudentCode_Inr by blast
    show ?thesis
    proof (cases "code \<in> db")
      case False
      with True g "1.prems" show ?thesis
        by (subst (1 2 3 4 5) studentCodeLoop.simps) simp
    next
      case c: True
      let ?next = "if attempts + 1 = 5 then 5 else if attempts + 1 = 10 then 6 else codeLength"
      have "studentCodeLoop db attempts codeLength tried r =
          studentCodeLoop db (attempts + 1) ?next (tried @ [code]) r'"
        using True g c by (subst studentCodeLoop.simps) simp
      moreover have "attempts + 1 \<le> 15" "length (tried @ [code]) = attempts + 1"
        "?next = length_after 4 (attempts + 1)"
        using True "1.prems" by (auto simp: length_after_def)
      moreover have nn: "\<not> code \<notin> db" using c by simp
      ultimately show ?thesis
        using "1.IH" [OF True g [symmetric] refl nn] by simp
    qed
  qed
qed

lemma studentCodeLoop_lengths:
  "length tried = attempts \<Longrightarrow> codeLength = length_after 4 attempts \<Longrightarrow>
   (\<forall>i < length tried. length (tried ! i) = length_after 4 i) \<Longrightarrow>
   i < length (candidates (studentCodeLoop db attempts codeLength tried r)) \<Longrightarrow>
   length (candidates (studentCodeLoop db attempts codeLength tried r) ! i) = length_after 4 i"
proof (induction db attempts codeLength tried r rule: studentCodeLoop.induct)
  case (1 db attempts codeLength tried r)
  show ?case
  proof (cases "attempts < 15")
    case False
    with "1.prems" show ?thesis
      by (subst studentCodeLoop.simps, subst (asm) (2) studentCodeLoop.simps) simp
  next
    case True
    have "3 \<le> codeLength" "codeLength \<le> 6"
      using "1.prems" by (auto simp: length_after_def)
    then obtain code r' where g: "generateStudentCode codeLength r = (Inr code, r')"
      using generateStudentCode_Inr by blast
    have lc: "length code = codeLength"
      using generateStudentCode_format [OF g] by simp
    have ext: "\<forall>i < length (tried @ [code]). length ((tried @ [code]) ! i) = length_after 4 i"
      using "1.prems"(1,2,3) lc by (auto simp: nth_append less_Suc_eq)
    show ?thesis
    proof (cases "code \<in> db")
      case False
      have "candidates (studentCodeLoop db attempts codeLength tried r) = tried @ [code]"
        using True g False by (subst studentCodeLoop.simps) simp
      with ext "1.prems"(4) show ?thesis by simp
    next
      case c: True
      let ?next = "if attempts + 1 = 5 then 5 else if attempts + 1 = 10 then 6 else codeLength"
      have eq: "studentCodeLoop db attempts codeLength tried r =
          studentCodeLoop db (attempts + 1) ?next (tried @ [code]) r'"
        using True g c by (subst studentCodeLoop.simps) simp
      have "length (tried @ [code]) = attempts + 1" "?next = length_after 4 (attempts + 1)"
        using True "1.prems" by (auto simp: length_after_def)
      moreover have nn: "\<not> code \<notin> db" using c by simp
      ultimately show ?thesis
        using "1.IH" [OF True g [symmetric] refl nn _ _ ext] "1.prems"(4) eq by simp
    qed
  qed
qed

lemma generateUniqueStudentCode_lengths:
  "i < length (candidates (generateUniqueStudentCode db r)) \<Longrightarrow>
   length (candidates (generateUniqueStudentCode db r) ! i) = length_after 4 i"
  unfolding generateUniqueStudentCode_def
  by (rule studentCodeLoop_lengths) (simp_all add: length_after_def)

text \<open>
  C3. For every set of codes already in storage, \<open>generateUniqueStudentCode\<close> and
  \<open>generateUniqueDeviceCode\<close> return a code that is not in storage, after at most 15
  generated candidates, or throw the error \<open>Unable to generate unique ... code after 15
  attempts\<close>.
\<close>

theorem generateUnique_fresh_or_exhausted:
  "((\<exists>code. outcome (generateUniqueStudentCode db r) = Inr code \<and> code \<notin> db
        \<and> length (candidates (generateUniqueStudentCode db r)) \<le> 15)
    \<or> (outcome (generateUniqueStudentCode db r) =
          Inl (Error ''Unable to generate unique student code after 15 attempts'')
        \<and> length (candidates (generateUniqueStudentCode db r)) = 15))
   \<and> ((\<exists>code. outcome (generateUniqueDeviceCode db r) = Inr code \<and> code \<notin> db
        \<and> length (candidates (generateUniqueDeviceCode db r)) \<le> 15)
    \<or> (outcome (generateUniqueDeviceCode db r) =
          Inl (Error ''Unable to generate unique device code after 15 attempts'')
        \<and> length (candidates (generateUniqueDeviceCode db r)) = 15))"
proof
  show "(\<exists>code. outcome (generateUniqueStudentCode db r) = Inr code \<and> code \<notin> db
        \<and> length (candidates (generateUniqueStudentCode db r)) \<le> 15)
    \<or> (outcome (generateUniqueStudentCode db r) =
          Inl (Error ''Unable to generate unique student code after 15 attempts'')
        \<and> length (candidates (generateUniqueStudentCode db r)) = 15)"
    unfolding generateUniqueStudentCode_def
    using studentCodeLoop_fresh [of 0 "[]" 4 db r] by (auto simp: length_after_def)
next
  show "(\<exists>code. outcome (generateUniqueDeviceCode db r) = Inr code \<and> code \<notin> db
        \<and> length (candidates (generateUniqueDeviceCode db r)) \<le> 15)
    \<or> (outcome (generateUniqueDeviceCode db r) =
          Inl (Error ''Unable to generate unique device code after 15 attempts'')
        \<and> length (candidates (generateUniqueDeviceCode db r)) = 15)"
    unfolding generateUniqueDeviceCode_def
    using deviceCodeLoop_fresh [of 0 "[]" db 6 r] by auto
qed

theorem generateUnique_fresh_or_exhausted_witness:
  "outcome (generateUniqueStudentCode {''AAAA'', ''AAAAA''} (\<lambda>_. 0)) = Inr ''AAAAAA''
   \<and> length (candidates (generateUniqueStudentCode {''AAAA'', ''AAAAA''} (\<lambda>_. 0))) = 11
   \<and> outcome (generateUniqueDeviceCode {''AAAA'', ''AAAAA''} (\<lambda>_. 0)) = Inr ''AAAAAA''
   \<and> length (candidates (generateUniqueDeviceCode {''AAAA'', ''AAAAA''} (\<lambda>_. 0))) = 1"
proof -
  have s: "outcome (generateUniqueStudentCode {''AAAA'', ''AAAAA''} (\<lambda>_. 0)) = Inr ''AAAAAA''"
    by code_simp
  have sl: "length (candidates (generateUniqueStudentCode {''AAAA'', ''AAAAA''} (\<lambda>_. 0))) = 11"
    by code_simp
  have d: "outcome (generateUniqueDeviceCode {''AAAA'', ''AAAAA''} (\<lambda>_. 0)) = Inr ''AAAAAA''"
    by code_simp
  have dl: "length (candidates (generateUniqueDeviceCode {''AAAA'', ''AAAAA''} (\<lambda>_. 0))) = 1"
    by code_simp
  show ?thesis
    using generateUnique_fresh_or_exhausted [of "{''AAAA'', ''AAAAA''}" "\<lambda>_. 0"] s sl d dl
    by simp
qed

text \<open>
  C4, on the failing input. The default charset of \<open>generateSecureRandom\<close> holds the letter
  L; on a random source whose bytes are all 10 the device code is \<open>LLLLLLL\<close>, which is
  outside the alphabet \<open>ABCDEFGHJKMNPQRSTUVWXYZ23456789\<close> and which the service's own
  \<open>validateDeviceCodeFormat\<close> rejects.
\<close>

theorem generateDeviceCode_yields_L:
  "fst (generateDeviceCode (\<lambda>_. 10)) = ''LLLLLLL''
   \<and> CHR ''L'' \<notin> set ''ABCDEFGHJKMNPQRSTUVWXYZ23456789''
   \<and> validateDeviceCodeFormat (fst (generateDeviceCode (\<lambda>_. 10))) = False"
proof -
  have g: "fst (generateDeviceCode (\<lambda>_. 10)) = ''LLLLLLL''"
    by code_simp
  show ?thesis
    by (simp add: g validateDeviceCodeFormat_def)
qed

text \<open>
  C5, on the failing input. \<open>generateUniqueDeviceCode\<close> sets \<open>codeLength\<close> to 7 and to 8 and
  never passes it on: \<open>generateDeviceCode\<close> takes no length. With the code \<open>AAAAAA\<close> in
  storage and a random source of zeros, every candidate is \<open>AAAAAA\<close>: the candidates after
  5 and after 10 collisions still have 6 characters, not 7 and 8.
\<close>

theorem generateUniqueDeviceCode_no_growth:
  "candidates (generateUniqueDeviceCode {''AAAAAA''} (\<lambda>_. 0)) = replicate 15 ''AAAAAA''
   \<and> length (candidates (generateUniqueDeviceCode {''AAAAAA''} (\<lambda>_. 0)) ! 5) = 6
   \<and> length_after 6 5 = 7
   \<and> length (candidates (generateUniqueDeviceCode {''AAAAAA''} (\<lambda>_. 0)) ! 10) = 6
   \<and> length_after 6 10 = 8"
proof -
  have c: "candidates (generateUniqueDeviceCode {''AAAAAA''} (\<lambda>_. 0)) = replicate 15 ''AAAAAA''"
    by code_simp
  show ?thesis
    by (simp add: c length_after_def)
qed

subsection \<open>Hexadecimal text, splitting and trimming\<close>

lemma split_not_Nil: "split sep s \<noteq> []"
  by (induction s) (auto split: list.splits)

lemma split_no_sep: "sep \<notin> set a \<Longrightarrow> split sep a = [a]"
  by (induction a) auto

lemma split_append_sep:
  "sep \<notin> set a \<Longrightarrow> split sep (a @ sep # rest) = a # split sep rest"
  by (induction a) (auto split: list.splits simp: split_not_Nil)

lemma dropWhile_all: "dropWhile P xs = [] \<longleftrightarrow> (\<forall>x \<in> set xs. P x)"
  by (induction xs) auto

lemma trim_Nil_iff: "trim s = [] \<longleftrightarrow> (\<forall>c \<in> set s. is_whitespace c)"
proof
  assume "trim s = []"
  then have a: "\<forall>c \<in> set (dropWhile is_whitespace s). is_whitespace c"
    by (simp add: trim_def dropWhile_all)
  show "\<forall>c \<in> set s. is_whitespace c"
  proof (rule ccontr)
    assume "\<not> (\<forall>c \<in> set s. is_whitespace c)"
    then have ne: "dropWhile is_whitespace s \<noteq> []" by (simp add: dropWhile_all)
    then have "\<not> is_whitespace (hd (dropWhile is_whitespace s))" by (rule hd_dropWhile)
    moreover have "hd (dropWhile is_whitespace s) \<in> set (dropWhile is_whitespace s)"
      using ne by simp
    ultimately show False using a by blast
  qed
next
  assume "\<forall>c \<in> set s. is_whitespace c"
  then have "\<forall>c \<in> set (dropWhile is_whitespace s). is_whitespace c"
    using set_dropWhileD by fast
  then show "trim s = []" by (simp add: trim_def dropWhile_all)
qed

lemma blank_iff: "blank s \<longleftrightarrow> (\<forall>c \<in> set s. is_whitespace c)"
  by (auto simp: blank_def trim_Nil_iff)

lemma hex_digit_unhex: "d < 16 \<Longrightarrow> unhex (hex_digit d) = Some d"
proof -
  assume "d < 16"
  then have "d \<in> {0, 1, 2, 3, 4, 5, 6, 7, 8, 9, 10, 11, 12, 13, 14, 15}" by (simp, arith)
  then show ?thesis
    by (auto simp: hex_digit_def js_def unhex_def)
qed

lemma unhex_less: "unhex c = Some x \<Longrightarrow> x < 16"
  by (auto simp: unhex_def Let_def split: if_splits)

lemma unhex_colon: "unhex colon = None"
  by (simp add: unhex_def colon_def)

lemma byte_digits: "unat (b :: byte) div 16 < 16" "unat b mod 16 < 16"
proof -
  have "unat b < 256" using unsigned_less [of b, where 'a = nat] by simp
  then show "unat b div 16 < 16" by (simp add: less_mult_imp_div_less)
  show "unat b mod 16 < 16" by simp
qed

lemma to_hex_Cons:
  "to_hex (b # bs) = hex_digit (unat b div 16) # hex_digit (unat b mod 16) # to_hex bs"
  by (simp add: to_hex_def)

lemma to_hex_Nil: "to_hex [] = []"
  by (simp add: to_hex_def)

lemma from_hex_to_hex: "from_hex (to_hex bs) = bs"
  by (induction bs) (simp_all add: to_hex_Cons to_hex_Nil hex_digit_unhex byte_digits)

lemma to_hex_digits: "c \<in> set (to_hex bs) \<Longrightarrow> unhex c \<noteq> None"
  by (induction bs) (auto simp: to_hex_Cons to_hex_Nil hex_digit_unhex byte_digits)

lemma to_hex_no_colon: "colon \<notin> set (to_hex bs)"
  using to_hex_digits unhex_colon by blast

subsection \<open>UTF-8 round trip\<close>

lemma split3: "(cp::nat) div 4096 * 4096 + cp div 64 mod 64 * 64 + cp mod 64 = cp"
proof -
  define q1 m1 q2 m2 where "q1 = cp div 64" and "m1 = cp mod 64"
    and "q2 = q1 div 64" and "m2 = q1 mod 64"
  have e1: "cp = q1 * 64 + m1" by (simp add: q1_def m1_def)
  have e2: "q1 = q2 * 64 + m2" by (simp add: q2_def m2_def)
  have a: "cp div 4096 = q2" by (simp add: q2_def q1_def div_mult2_eq)
  have "q2 * 4096 + m2 * 64 + m1 = cp" using e1 e2 by linarith
  then show ?thesis by (simp add: a flip: m2_def q1_def m1_def)
qed

lemma split4: "(cp::nat) div 262144 * 262144 + cp div 4096 mod 64 * 4096 + cp div 64 mod 64 * 64 + cp mod 64 = cp"
proof -
  define q1 m1 q2 m2 q3 m3 where "q1 = cp div 64" and "m1 = cp mod 64"
    and "q2 = q1 div 64" and "m2 = q1 mod 64" and "q3 = q2 div 64" and "m3 = q2 mod 64"
  have e1: "cp = q1 * 64 + m1" by (simp add: q1_def m1_def)
  have e2: "q1 = q2 * 64 + m2" by (simp add: q2_def m2_def)
  have e3: "q2 = q3 * 64 + m3" by (simp add: q3_def m3_def)
  have a: "cp div 4096 = q2" by (simp add: q2_def q1_def div_mult2_eq)
  have b: "cp div 262144 = q3" by (simp add: q3_def q2_def q1_def div_mult2_eq)
  have "q3 * 262144 + m3 * 4096 + m2 * 64 + m1 = cp" using e1 e2 e3 by linarith
  then show ?thesis by (simp add: a b flip: m3_def m2_def q1_def m1_def)
qed

lemma div4096_less: "(cp::nat) < 0x10000 \<Longrightarrow> cp div 4096 < 16" by (simp add: less_mult_imp_div_less)
lemma div262144_less: "(cp::nat) < 0x110000 \<Longrightarrow> cp div 262144 < 5" by (simp add: less_mult_imp_div_less)
lemma div64_less: "(cp::nat) < 0x800 \<Longrightarrow> cp div 64 < 32" by (simp add: less_mult_imp_div_less)
lemma div64_ge: "0x80 \<le> (cp::nat)  \<Longrightarrow> 2 \<le> cp div 64" by (simp add: less_eq_div_iff_mult_less_eq)
lemma second_lower3: "0x800 \<le> (cp::nat) \<Longrightarrow> cp div 4096 = 0 \<Longrightarrow> 32 \<le> cp div 64 mod 64"
proof -
  assume h: "0x800 \<le> cp" "cp div 4096 = 0"
  have "cp div 4096 = cp div 64 div 64" by (simp add: div_mult2_eq)
  with h have "cp div 64 mod 64 = cp div 64" by simp
  moreover have "32 \<le> cp div 64" using h(1) by (simp add: less_eq_div_iff_mult_less_eq)
  ultimately show ?thesis by simp
qed
lemma second_upper3: "\<not> (0xD800 \<le> (cp::nat) \<and> cp < 0xE000) \<Longrightarrow> cp div 4096 = 13 \<Longrightarrow> cp div 64 mod 64 < 32"
proof -
  assume h: "\<not> (0xD800 \<le> (cp::nat) \<and> cp < 0xE000)" "cp div 4096 = 13"
  define q1 m1 q2 m2 where "q1 = cp div 64" and "m1 = cp mod 64"
    and "q2 = q1 div 64" and "m2 = q1 mod 64"
  have e1: "cp = q1 * 64 + m1" by (simp add: q1_def m1_def)
  have e2: "q1 = q2 * 64 + m2" by (simp add: q2_def m2_def)
  have a: "cp div 4096 = q2" by (simp add: q2_def q1_def div_mult2_eq)
  have m: "m1 < 64" "m2 < 64" by (simp_all add: m1_def m2_def)
  have "m2 < 32" using h e1 e2 a m by linarith
  then show ?thesis by (simp add: m2_def q1_def)
qed
lemma second_lower4: "0x10000 \<le> (cp::nat) \<Longrightarrow> cp div 262144 = 0 \<Longrightarrow> 16 \<le> cp div 4096 mod 64"
proof -
  assume h: "0x10000 \<le> cp" "cp div 262144 = 0"
  have "cp div 262144 = cp div 4096 div 64" by (simp add: div_mult2_eq)
  with h have "cp div 4096 mod 64 = cp div 4096" by simp
  moreover have "16 \<le> cp div 4096" using h(1) by (simp add: less_eq_div_iff_mult_less_eq)
  ultimately show ?thesis by simp
qed
lemma second_upper4: "(cp::nat) < 0x110000 \<Longrightarrow> cp div 262144 = 4 \<Longrightarrow> cp div 4096 mod 64 < 16"
proof -
  assume h: "cp < 0x110000" "cp div 262144 = 4"
  define q m where "q = cp div 4096" and "m = cp mod 4096"
  have a: "cp div 262144 = q div 64" by (simp add: q_def div_mult2_eq)
  have e: "q = q div 64 * 64 + q mod 64" by simp
  have "q < 272" using h(1) by (simp add: q_def less_mult_imp_div_less)
  then have "q mod 64 < 16" using h(2) a e by linarith
  then show ?thesis by (simp add: q_def)
qed

lemma unat_byte: "x < 256 \<Longrightarrow> unat (of_nat x :: byte) = x"
  by (simp add: unat_of_nat)

lemma decode_1:
  "unat b0 < 0x80 \<Longrightarrow> utf8_code_points (b0 # rest) = unat b0 # utf8_code_points rest"
  by (simp add: utf8_code_points.simps(2))

lemma decode_2:
  "unat b0 = 0xC0 + a \<Longrightarrow> 2 \<le> a \<Longrightarrow> a < 32 \<Longrightarrow> unat b1 = 0x80 + c \<Longrightarrow> c < 64 \<Longrightarrow>
   utf8_code_points (b0 # b1 # rest) = (a * 64 + c) # utf8_code_points rest"
  by (auto simp: utf8_code_points.simps(2) continuation_def)

lemma decode_3:
  "unat b0 = 0xE0 + a \<Longrightarrow> a < 16 \<Longrightarrow> unat b1 = 0x80 + b \<Longrightarrow> b < 64 \<Longrightarrow>
   unat b2 = 0x80 + c \<Longrightarrow> c < 64 \<Longrightarrow> (a = 0 \<longrightarrow> 32 \<le> b) \<Longrightarrow> (a = 13 \<longrightarrow> b < 32) \<Longrightarrow>
   utf8_code_points (b0 # b1 # b2 # rest) = (a * 4096 + b * 64 + c) # utf8_code_points rest"
  by (auto simp: utf8_code_points.simps(2) continuation_def)

lemma decode_4:
  "unat b0 = 0xF0 + a \<Longrightarrow> a < 5 \<Longrightarrow> unat b1 = 0x80 + b \<Longrightarrow> b < 64 \<Longrightarrow>
   unat b2 = 0x80 + c \<Longrightarrow> c < 64 \<Longrightarrow> unat b3 = 0x80 + d \<Longrightarrow> d < 64 \<Longrightarrow>
   (a = 0 \<longrightarrow> 16 \<le> b) \<Longrightarrow> (a = 4 \<longrightarrow> b < 16) \<Longrightarrow>
   utf8_code_points (b0 # b1 # b2 # b3 # rest) =
     (a * 262144 + b * 4096 + c * 64 + d) # utf8_code_points rest"
  by (auto simp: utf8_code_points.simps(2) continuation_def)

lemma utf8_bytes_code_points:
  assumes "cp < 0x110000" "\<not> (0xD800 \<le> cp \<and> cp < 0xE000)"
  shows "utf8_code_points (utf8_bytes cp @ rest) = cp # utf8_code_points rest"
proof -
  consider "cp < 0x80" | "0x80 \<le> cp" "cp < 0x800" | "0x800 \<le> cp" "cp < 0x10000"
    | "0x10000 \<le> cp" by linarith
  then show ?thesis
  proof cases
    case 1
    then have u: "unat (of_nat cp :: byte) = cp" by (intro unat_byte) simp
    from 1 have "utf8_bytes cp = [of_nat cp]" by (simp add: utf8_bytes_def)
    then show ?thesis using decode_1 [of "of_nat cp" rest] u 1 by simp
  next
    case 2
    let ?a = "cp div 64" and ?c = "cp mod 64"
    have d: "2 \<le> ?a" "?a < 32" "?c < 64"
      using 2 div64_ge div64_less by simp_all
    have b0: "unat (of_nat (0xC0 + ?a) :: byte) = 0xC0 + ?a"
      using d by (intro unat_byte) linarith
    have b1: "unat (of_nat (0x80 + ?c) :: byte) = 0x80 + ?c"
      using d by (intro unat_byte) linarith
    from 2 have "utf8_bytes cp = [of_nat (0xC0 + ?a), of_nat (0x80 + ?c)]"
      unfolding utf8_bytes_def by simp
    moreover have "?a * 64 + ?c = cp" by simp
    ultimately show ?thesis
      using decode_2 [OF b0 d(1,2) b1 d(3), of rest] by simp
  next
    case 3
    let ?a = "cp div 4096" and ?b = "cp div 64 mod 64" and ?c = "cp mod 64"
    have d: "?a < 16" "?b < 64" "?c < 64"
      using 3 div4096_less by simp_all
    have b0: "unat (of_nat (0xE0 + ?a) :: byte) = 0xE0 + ?a"
      using d by (intro unat_byte) linarith
    have b1: "unat (of_nat (0x80 + ?b) :: byte) = 0x80 + ?b"
      using d by (intro unat_byte) linarith
    have b2: "unat (of_nat (0x80 + ?c) :: byte) = 0x80 + ?c"
      using d by (intro unat_byte) linarith
    have lo: "?a = 0 \<longrightarrow> 32 \<le> ?b" using 3 second_lower3 by blast
    have hi: "?a = 13 \<longrightarrow> ?b < 32" using assms second_upper3 by blast
    from 3 have "utf8_bytes cp = [of_nat (0xE0 + ?a), of_nat (0x80 + ?b), of_nat (0x80 + ?c)]"
      unfolding utf8_bytes_def by simp
    then show ?thesis
      using decode_3 [OF b0 d(1) b1 d(2) b2 d(3) lo hi, of rest] split3 [of cp] by simp
  next
    case 4
    let ?a = "cp div 262144" and ?b = "cp div 4096 mod 64" and ?c = "cp div 64 mod 64"
      and ?d = "cp mod 64"
    have d: "?a < 5" "?b < 64" "?c < 64" "?d < 64"
      using assms div262144_less by simp_all
    have b0: "unat (of_nat (0xF0 + ?a) :: byte) = 0xF0 + ?a"
      using d by (intro unat_byte) linarith
    have b1: "unat (of_nat (0x80 + ?b) :: byte) = 0x80 + ?b"
      using d by (intro unat_byte) linarith
    have b2: "unat (of_nat (0x80 + ?c) :: byte) = 0x80 + ?c"
      using d by (intro unat_byte) linarith
    have b3: "unat (of_nat (0x80 + ?d) :: byte) = 0x80 + ?d"
      using d by (intro unat_byte) linarith
    have lo: "?a = 0 \<longrightarrow> 16 \<le> ?b" using 4 second_lower4 by blast
    have hi: "?a = 4 \<longrightarrow> ?b < 16" using assms second_upper4 by blast
    from 4 have "utf8_bytes cp =
        [of_nat (0xF0 + ?a), of_nat (0x80 + ?b), of_nat (0x80 + ?c), of_nat (0x80 + ?d)]"
      unfolding utf8_bytes_def by simp
    then show ?thesis
      using decode_4 [OF b0 d(1) b1 d(2) b2 d(3) b3 d(4) lo hi, of rest] split4 [of cp] by simp
  qed
qed

lemma utf16_units_unit:
  "utf16_units (unat (u :: 16 word)) = [u]"
proof -
  have "unat u < 65536" using unsigned_less [of u, where 'a = nat] by simp
  then show ?thesis by (simp add: utf16_units_def)
qed

lemma utf16_units_pair:
  assumes "is_high_surrogate u" "is_low_surrogate v"
  shows "utf16_units (0x10000 + (unat u - 0xD800) * 0x400 + (unat v - 0xDC00)) = [u, v]"
proof -
  define h l where "h = unat u - 0xD800" and "l = unat v - 0xDC00"
  have hl: "h < 0x400" "l < 0x400" "unat u = 0xD800 + h" "unat v = 0xDC00 + l"
    using assms by (auto simp: is_high_surrogate_def is_low_surrogate_def h_def l_def)
  have "(h * 0x400 + l) div 0x400 = h" "(h * 0x400 + l) mod 0x400 = l"
    using hl by simp_all
  then have "utf16_units (0x10000 + h * 0x400 + l) = [of_nat (0xD800 + h), of_nat (0xDC00 + l)]"
    by (simp add: utf16_units_def add.assoc)
  also have "\<dots> = [u, v]"
    using hl(3,4) by (metis of_nat_unat ucast_id)
  finally show ?thesis by (simp add: h_def l_def)
qed

lemma pair_code_point_range:
  assumes "is_high_surrogate u" "is_low_surrogate v"
  shows "0x10000 + (unat u - 0xD800) * 0x400 + (unat v - 0xDC00) < 0x110000"
    and "\<not> (0xD800 \<le> 0x10000 + (unat u - 0xD800) * 0x400 + (unat v - 0xDC00)
            \<and> 0x10000 + (unat u - 0xD800) * 0x400 + (unat v - 0xDC00) < 0xE000)"
  using assms by (auto simp: is_high_surrogate_def is_low_surrogate_def)

lemma unit_code_point_range:
  assumes "\<not> is_high_surrogate u" "\<not> is_low_surrogate u"
  shows "unat u < 0x110000" and "\<not> (0xD800 \<le> unat u \<and> unat u < 0xE000)"
proof -
  have "unat u < 65536" using unsigned_less [of u, where 'a = nat] by simp
  then show "unat u < 0x110000" by simp
  show "\<not> (0xD800 \<le> unat u \<and> unat u < 0xE000)"
    using assms by (auto simp: is_high_surrogate_def is_low_surrogate_def)
qed

lemma decode_unit:
  assumes "\<not> is_high_surrogate u" "\<not> is_low_surrogate u"
  shows "utf8_decode (utf8_bytes (unat u) @ rest) = u # utf8_decode rest"
  using utf8_bytes_code_points [OF unit_code_point_range [OF assms], of rest]
  by (simp add: utf8_decode_def utf16_units_unit)

lemma decode_pair:
  assumes "is_high_surrogate u" "is_low_surrogate v"
  shows "utf8_decode (utf8_bytes (0x10000 + (unat u - 0xD800) * 0x400 + (unat v - 0xDC00)) @ rest)
         = u # v # utf8_decode rest"
  using utf8_bytes_code_points [OF pair_code_point_range [OF assms], of rest]
    utf16_units_pair [OF assms]
  by (simp add: utf8_decode_def)

lemma utf8_roundtrip: "well_formed s \<Longrightarrow> utf8_decode (utf8_encode s) = s"
proof (induction s rule: well_formed.induct)
  case 1
  show ?case by (simp add: utf8_decode_def)
next
  case (2 u)
  then show ?case using decode_unit [of u "[]"] by (simp add: utf8_decode_def)
next
  case (3 u v vs)
  show ?case
  proof (cases "is_high_surrogate u")
    case True
    with 3 show ?thesis using decode_pair [of u v "utf8_encode vs"] by simp
  next
    case False
    with 3 show ?thesis using decode_unit [of u "utf8_encode (v # vs)"] by simp
  qed
qed

lemma utf8_lone_surrogate: "utf8_decode (utf8_encode [0xD800]) = [0xFFFD]"
proof -
  have a1: "utf8_encode [0xD800] = [0xEF, 0xBF, 0xBD]"
    by (simp add: is_high_surrogate_def utf8_bytes_def)
  have a2: "utf8_code_points [0xEF, 0xBF, 0xBD] = [0xFFFD]"
    by (simp add: utf8_code_points.simps(2) continuation_def Let_def)
  show ?thesis unfolding utf8_decode_def a1 a2 by (simp add: utf16_units_def)
qed

subsection \<open>Encryption and decryption\<close>

lemma colon_not_whitespace: "\<not> is_whitespace colon"
  by (simp add: is_whitespace_def colon_def)

lemma token_not_blank: "\<not> blank (a @ colon # b)"
  using colon_not_whitespace by (auto simp: blank_iff)

lemma token_split:
  "split colon (to_hex iv @ colon # to_hex tag @ colon # to_hex ct) =
     [to_hex iv, to_hex tag, to_hex ct]"
  by (simp add: split_append_sep split_no_sep to_hex_no_colon)

lemma length_randomBytes: "length (fst (randomBytes n r)) = n"
  by (simp add: randomBytes_def)

lemma encrypt_blank: "blank s \<Longrightarrow> encrypt lib key s r = (Inr s, r)"
  by (simp add: encrypt_def)

lemma decrypt_blank: "blank s \<Longrightarrow> decrypt lib key s = Inr s"
  by (simp add: decrypt_def)

lemma encrypt_token:
  "\<not> blank s \<Longrightarrow> cipher lib key (fst (randomBytes ivLength r)) AAD (utf8_encode s) = Some (ct, tag) \<Longrightarrow>
   fst (encrypt lib key s r) =
     Inr (to_hex (fst (randomBytes ivLength r)) @ colon # to_hex tag @ colon # to_hex ct)"
  by (simp add: encrypt_def case_prod_beta try_catch_def)

lemma length_to_hex: "length (to_hex bs) = 2 * length bs"
  by (induction bs) (simp_all add: to_hex_Nil to_hex_Cons)

lemma decrypt_parts:
  "\<not> blank tok \<Longrightarrow>
   decrypt lib key tok =
     (if length (split colon tok) \<noteq> 3 \<or> odd (length (split colon tok ! 2))
      then Inl (Error ''Failed to decrypt data'')
      else case decipher lib key (from_hex (split colon tok ! 0)) AAD
                  (from_hex (split colon tok ! 1)) (from_hex (split colon tok ! 2)) of
             None \<Rightarrow> Inl (Error ''Failed to decrypt data'')
           | Some decrypted \<Rightarrow> Inr (utf8_decode decrypted))"
  by (simp add: decrypt_def try_catch_def Let_def split: option.splits)

lemma decrypt_token:
  "decrypt lib key (to_hex iv @ colon # to_hex tag @ colon # to_hex ct) =
     (case decipher lib key iv AAD tag ct of
        None \<Rightarrow> Inl (Error ''Failed to decrypt data'')
      | Some decrypted \<Rightarrow> Inr (utf8_decode decrypted))"
  by (simp add: decrypt_parts [OF token_not_blank] token_split from_hex_to_hex length_to_hex)

lemma decrypt_encrypt_utf8:
  assumes "\<not> blank s" "aead_inverts lib key"
  shows "decrypt_encrypt lib key s r = Inr (utf8_decode (utf8_encode s))"
proof -
  let ?iv = "fst (randomBytes ivLength r)"
  have "length ?iv = ivLength" by (rule length_randomBytes)
  with assms(2) obtain ct tag where
    c: "cipher lib key ?iv AAD (utf8_encode s) = Some (ct, tag)" and
    d: "decipher lib key ?iv AAD tag ct = Some (utf8_encode s)"
    unfolding aead_inverts_def by blast
  show ?thesis
    by (simp add: decrypt_encrypt_def encrypt_token [OF assms(1) c] decrypt_token d)
qed

lemma toy_inverts: "aead_inverts toy_crypto key"
  by (simp add: aead_inverts_def toy_crypto_def)

lemma filter_zip_same: "filter (\<lambda>(x, y). x \<noteq> y) (zip xs xs) = []"
  by (induction xs) simp_all

lemma one_byte_changed_neq: "one_byte_changed xs ys \<Longrightarrow> ys \<noteq> xs"
  by (auto simp: one_byte_changed_def filter_zip_same)

lemma one_byte_changed_head: "b' \<noteq> b \<Longrightarrow> one_byte_changed (b # bs) (b' # bs)"
  by (simp add: one_byte_changed_def filter_zip_same)

lemma one_byte_changed_tail: "one_byte_changed bs cs \<Longrightarrow> one_byte_changed (b # bs) (b # cs)"
  by (simp add: one_byte_changed_def)

lemma toy_detects: "detects_tampering toy_crypto key iv (iv @ ct) ct"
  by (auto simp: detects_tampering_def toy_crypto_def dest: one_byte_changed_neq)

lemma byte_of_digits_inj:
  assumes "x < 16" "y < 16" "x' < 16" "y' < 16"
    and "(of_nat (x * 16 + y) :: byte) = of_nat (x' * 16 + y')"
  shows "x = x' \<and> y = y'"
proof -
  have "unat (of_nat (x * 16 + y) :: byte) = x * 16 + y"
    using assms(1,2) by (intro unat_byte) linarith
  moreover have "unat (of_nat (x' * 16 + y') :: byte) = x' * 16 + y'"
    using assms(3,4) by (intro unat_byte) linarith
  ultimately have e: "x * 16 + y = x' * 16 + y'" using assms(5) by simp
  have "(x * 16 + y) div 16 = x" "(x' * 16 + y') div 16 = x'"
    "(x * 16 + y) mod 16 = y" "(x' * 16 + y') mod 16 = y'"
    using assms(1-4) by simp_all
  then show ?thesis using e by metis
qed

lemma from_hex_flip:
  assumes "j < length (to_hex bs)" "unhex c' = Some y" "unhex (to_hex bs ! j) \<noteq> Some y"
  shows "one_byte_changed bs (from_hex ((to_hex bs)[j := c']))"
  using assms
proof (induction bs arbitrary: j)
  case Nil
  then show ?case by (simp add: to_hex_Nil)
next
  case (Cons b bs)
  let ?hi = "unat b div 16" and ?lo = "unat b mod 16"
  have dig: "?hi < 16" "?lo < 16" by (rule byte_digits)+
  have y: "y < 16" using Cons.prems(2) by (rule unhex_less)
  have b: "b = of_nat (?hi * 16 + ?lo)" by simp
  consider "j = 0" | "j = 1" | k where "j = Suc (Suc k)"
    by (metis One_nat_def not0_implies_Suc)
  then show ?case
  proof cases
    case 1
    with Cons.prems have ne: "?hi \<noteq> y"
      by (simp add: to_hex_Cons hex_digit_unhex dig)
    have "(of_nat (y * 16 + ?lo) :: byte) \<noteq> of_nat (?hi * 16 + ?lo)"
      using byte_of_digits_inj [OF y dig(2) dig] ne by blast
    then have "(of_nat (y * 16 + ?lo) :: byte) \<noteq> b" using b by simp
    then have "one_byte_changed (b # bs) (of_nat (y * 16 + ?lo) # bs)"
      by (rule one_byte_changed_head)
    moreover have "from_hex ((to_hex (b # bs))[j := c']) = of_nat (y * 16 + ?lo) # bs"
      using 1 Cons.prems(2)
      by (simp add: to_hex_Cons hex_digit_unhex dig from_hex_to_hex del: of_nat_add of_nat_mult)
    ultimately show ?thesis by simp
  next
    case 2
    with Cons.prems have ne: "?lo \<noteq> y"
      by (simp add: to_hex_Cons hex_digit_unhex dig)
    have "(of_nat (?hi * 16 + y) :: byte) \<noteq> of_nat (?hi * 16 + ?lo)"
      using byte_of_digits_inj [OF dig(1) y dig] ne by blast
    then have "(of_nat (?hi * 16 + y) :: byte) \<noteq> b" using b by simp
    then have "one_byte_changed (b # bs) (of_nat (?hi * 16 + y) # bs)"
      by (rule one_byte_changed_head)
    moreover have "from_hex ((to_hex (b # bs))[j := c']) = of_nat (?hi * 16 + y) # bs"
      using 2 Cons.prems(2)
      by (simp add: to_hex_Cons hex_digit_unhex dig from_hex_to_hex del: of_nat_add of_nat_mult)
    ultimately show ?thesis by simp
  next
    case 3
    with Cons.prems have "k < length (to_hex bs)" "unhex (to_hex bs ! k) \<noteq> Some y"
      by (simp_all add: to_hex_Cons)
    then have "one_byte_changed bs (from_hex ((to_hex bs)[k := c']))"
      using Cons.IH Cons.prems(2) by blast
    then have "one_byte_changed (b # bs) (b # from_hex ((to_hex bs)[k := c']))"
      by (rule one_byte_changed_tail)
    moreover have "from_hex ((to_hex (b # bs))[j := c']) = b # from_hex ((to_hex bs)[k := c'])"
      using 3 by (simp add: to_hex_Cons hex_digit_unhex dig)
    ultimately show ?thesis by simp
  qed
qed

lemma update_no_colon:
  "colon \<notin> set xs \<Longrightarrow> unhex c' \<noteq> None \<Longrightarrow> colon \<notin> set (xs[j := c'])"
  using set_update_subset_insert [of xs j c'] unhex_colon by auto

lemma decrypt_three_parts:
  "colon \<notin> set a \<Longrightarrow> colon \<notin> set b \<Longrightarrow> colon \<notin> set c \<Longrightarrow> even (length c) \<Longrightarrow>
   decrypt lib key (a @ colon # b @ colon # c) =
     (case decipher lib key (from_hex a) AAD (from_hex b) (from_hex c) of
        None \<Rightarrow> Inl (Error ''Failed to decrypt data'')
      | Some decrypted \<Rightarrow> Inr (utf8_decode decrypted))"
  by (simp add: decrypt_parts [OF token_not_blank] split_append_sep split_no_sep)

lemma update_in_parts:
  assumes "i < length (a @ sep # b @ sep # c)" "(a @ sep # b @ sep # c) ! i \<noteq> sep"
  shows "(\<exists>j < length a. (a @ sep # b @ sep # c) ! i = a ! j
            \<and> (a @ sep # b @ sep # c)[i := x] = a[j := x] @ sep # b @ sep # c)
       \<or> (\<exists>j < length b. (a @ sep # b @ sep # c) ! i = b ! j
            \<and> (a @ sep # b @ sep # c)[i := x] = a @ sep # b[j := x] @ sep # c)
       \<or> (\<exists>j < length c. (a @ sep # b @ sep # c) ! i = c ! j
            \<and> (a @ sep # b @ sep # c)[i := x] = a @ sep # b @ sep # c[j := x])"
proof (cases "i < length a")
  case True
  then have "(a @ sep # b @ sep # c) ! i = a ! i
      \<and> (a @ sep # b @ sep # c)[i := x] = a[i := x] @ sep # b @ sep # c"
    by (simp add: nth_append list_update_append)
  with True show ?thesis by blast
next
  case False
  then obtain k where k: "i = length a + k" using le_Suc_ex not_less by blast
  have k0: "k \<noteq> 0"
  proof
    assume "k = 0"
    with k have "(a @ sep # b @ sep # c) ! i = sep" by (simp add: nth_append)
    with assms(2) show False by simp
  qed
  then obtain m where m: "k = Suc m" using not0_implies_Suc by blast
  have i: "i = length a + Suc m" using k m by simp
  have nth: "(a @ sep # b @ sep # c) ! i = (b @ sep # c) ! m"
    unfolding i by (simp add: nth_append)
  have upd: "(a @ sep # b @ sep # c)[i := x] = a @ sep # (b @ sep # c)[m := x]"
    unfolding i by (simp add: list_update_append)
  show ?thesis
  proof (cases "m < length b")
    case True
    then have "(b @ sep # c) ! m = b ! m \<and> (b @ sep # c)[m := x] = b[m := x] @ sep # c"
      by (simp add: nth_append list_update_append)
    with True nth upd show ?thesis by auto
  next
    case False
    then obtain n where n: "m = length b + n" using le_Suc_ex not_less by blast
    have "n \<noteq> 0"
    proof
      assume "n = 0"
      with n have "(b @ sep # c) ! m = sep" by (simp add: nth_append)
      with assms(2) nth show False by simp
    qed
    then obtain q where q: "n = Suc q" using not0_implies_Suc by blast
    have mq: "m = length b + Suc q" using n q by simp
    have "q < length c" using assms(1) i mq by simp
    moreover have "(b @ sep # c) ! m = c ! q" unfolding mq by (simp add: nth_append)
    moreover have "(b @ sep # c)[m := x] = b @ sep # c[q := x]"
      unfolding mq by (simp add: list_update_append)
    ultimately show ?thesis using nth upd by auto
  qed
qed

lemma decrypt_flipped:
  assumes det: "detects_tampering lib key iv tag ct"
    and tok: "tok = to_hex iv @ colon # to_hex tag @ colon # to_hex ct"
    and i: "i < length tok" and old: "unhex (tok ! i) \<noteq> None"
    and new: "unhex c' \<noteq> None" and ne: "unhex c' \<noteq> unhex (tok ! i)"
  shows "decrypt lib key (tok[i := c']) = Inl (Error ''Failed to decrypt data'')"
proof -
  let ?a = "to_hex iv" and ?b = "to_hex tag" and ?c = "to_hex ct"
  obtain y where y: "unhex c' = Some y" using new by blast
  have nc: "colon \<notin> set ?a" "colon \<notin> set ?b" "colon \<notin> set ?c"
    by (rule to_hex_no_colon)+
  have fail_iv: "\<And>iv'. one_byte_changed iv iv' \<Longrightarrow> decipher lib key iv' AAD tag ct = None"
    using det unfolding detects_tampering_def by simp
  have fail_tag: "\<And>tag'. one_byte_changed tag tag' \<Longrightarrow> decipher lib key iv AAD tag' ct = None"
    using det unfolding detects_tampering_def by simp
  have fail_ct: "\<And>ct'. one_byte_changed ct ct' \<Longrightarrow> decipher lib key iv AAD tag ct' = None"
    using det unfolding detects_tampering_def by simp
  have ev: "even (length ?c)" "\<And>j. even (length (?c[j := c']))"
    by (simp_all add: length_to_hex)
  have nsep: "tok ! i \<noteq> colon" using old unhex_colon by metis
  have parts: "(\<exists>j < length ?a. tok ! i = ?a ! j
            \<and> tok[i := c'] = ?a[j := c'] @ colon # ?b @ colon # ?c)
       \<or> (\<exists>j < length ?b. tok ! i = ?b ! j
            \<and> tok[i := c'] = ?a @ colon # ?b[j := c'] @ colon # ?c)
       \<or> (\<exists>j < length ?c. tok ! i = ?c ! j
            \<and> tok[i := c'] = ?a @ colon # ?b @ colon # ?c[j := c'])"
    unfolding tok by (rule update_in_parts) (use i nsep in \<open>simp_all add: tok\<close>)
  from parts show ?thesis
  proof (elim disjE exE conjE)
    fix j
    assume j: "j < length ?a" and at: "tok ! i = ?a ! j"
      and up: "tok[i := c'] = ?a[j := c'] @ colon # ?b @ colon # ?c"
    have "unhex (?a ! j) \<noteq> Some y" using ne y at by simp
    then have "one_byte_changed iv (from_hex (?a[j := c']))" by (rule from_hex_flip [OF j y])
    then have "decipher lib key (from_hex (?a[j := c'])) AAD tag ct = None"
      by (rule fail_iv)
    moreover have "colon \<notin> set (?a[j := c'])" using nc(1) new by (rule update_no_colon)
    ultimately show ?thesis
      unfolding up by (simp add: decrypt_three_parts nc ev from_hex_to_hex)
  next
    fix j
    assume j: "j < length ?b" and at: "tok ! i = ?b ! j"
      and up: "tok[i := c'] = ?a @ colon # ?b[j := c'] @ colon # ?c"
    have "unhex (?b ! j) \<noteq> Some y" using ne y at by simp
    then have "one_byte_changed tag (from_hex (?b[j := c']))" by (rule from_hex_flip [OF j y])
    then have "decipher lib key iv AAD (from_hex (?b[j := c'])) ct = None"
      by (rule fail_tag)
    moreover have "colon \<notin> set (?b[j := c'])" using nc(2) new by (rule update_no_colon)
    ultimately show ?thesis
      unfolding up by (simp add: decrypt_three_parts nc ev from_hex_to_hex)
  next
    fix j
    assume j: "j < length ?c" and at: "tok ! i = ?c ! j"
      and up: "tok[i := c'] = ?a @ colon # ?b @ colon # ?c[j := c']"
    have "unhex (?c ! j) \<noteq> Some y" using ne y at by simp
    then have "one_byte_changed ct (from_hex (?c[j := c']))" by (rule from_hex_flip [OF j y])
    then have "decipher lib key iv AAD tag (from_hex (?c[j := c'])) = None"
      by (rule fail_ct)
    moreover have "colon \<notin> set (?c[j := c'])" using nc(3) new by (rule update_no_colon)
    ultimately show ?thesis
      unfolding up by (simp add: decrypt_three_parts nc ev from_hex_to_hex)
  qed
qed

lemma decrypt_encrypt_lone_surrogate:
  assumes "aead_inverts lib key"
  shows "decrypt_encrypt lib key [0xD800] r = Inr [0xFFFD]"
proof -
  have "\<not> blank [0xD800]" by (simp add: blank_iff is_whitespace_def)
  then show ?thesis
    using decrypt_encrypt_utf8 [OF _ assms] utf8_lone_surrogate by simp
qed

text \<open>
  C1 (amended). An empty or blank string is returned unchanged by \<open>encrypt\<close> and by
  \<open>decrypt\<close>. For every non-empty string \<open>s\<close> that is well-formed UTF-16 (no unpaired
  surrogate), \<open>decrypt (encrypt s)\<close> returns \<open>s\<close>, for the same key and a cipher that
  inverts.
\<close>

theorem decrypt_encrypt_roundtrip:
  "(blank s \<longrightarrow> fst (encrypt lib key s r) = Inr s \<and> decrypt lib key s = Inr s)
   \<and> (s \<noteq> [] \<and> well_formed s \<and> aead_inverts lib key \<longrightarrow>
        decrypt_encrypt lib key s r = Inr s)"
proof (intro conjI impI)
  assume "blank s"
  then show "fst (encrypt lib key s r) = Inr s" by (simp add: encrypt_blank)
next
  assume "blank s"
  then show "decrypt lib key s = Inr s" by (rule decrypt_blank)
next
  assume a: "s \<noteq> [] \<and> well_formed s \<and> aead_inverts lib key"
  show "decrypt_encrypt lib key s r = Inr s"
  proof (cases "blank s")
    case True
    then show ?thesis by (simp add: decrypt_encrypt_def encrypt_blank decrypt_blank)
  next
    case False
    then show ?thesis using a by (simp add: decrypt_encrypt_utf8 utf8_roundtrip)
  qed
qed

theorem decrypt_encrypt_roundtrip_witness:
  "fst (encrypt toy_crypto [1, 2, 3] (js ''  '') (\<lambda>i. i)) = Inr (js ''  '')
   \<and> decrypt toy_crypto [1, 2, 3] (js ''  '') = Inr (js ''  '')
   \<and> decrypt_encrypt toy_crypto [1, 2, 3] (js ''Ada'') (\<lambda>i. i) = Inr (js ''Ada'')"
proof -
  have b: "blank (js ''  '')" by (simp add: blank_iff js_def is_whitespace_def)
  have w: "js ''Ada'' \<noteq> [] \<and> well_formed (js ''Ada'') \<and> aead_inverts toy_crypto [1, 2, 3]"
    by (simp add: js_def is_high_surrogate_def is_low_surrogate_def toy_inverts)
  show ?thesis
    using decrypt_encrypt_roundtrip [of "js ''  ''" toy_crypto "[1, 2, 3]" "\<lambda>i. i"]
      decrypt_encrypt_roundtrip [of "js ''Ada''" toy_crypto "[1, 2, 3]" "\<lambda>i. i"] b w
    by blast
qed

text \<open>
  C1 as first stated covers every non-empty string. The string of the single code unit
  D800, an unpaired surrogate, is not blank; its UTF-8 bytes are those of U+FFFD, and
  with every cipher that inverts \<open>decrypt (encrypt s)\<close> returns the string of the code
  unit FFFD. The instance takes the small cipher.
\<close>

theorem decrypt_encrypt_lone_surrogate_counterexample:
  "[0xD800] \<noteq> ([] :: utf16)
   \<and> aead_inverts toy_crypto [1, 2, 3]
   \<and> decrypt_encrypt toy_crypto [1, 2, 3] [0xD800] (\<lambda>i. i) = Inr [0xFFFD]
   \<and> [0xFFFD] \<noteq> [0xD800 :: 16 word]"
  by (simp add: toy_inverts decrypt_encrypt_lone_surrogate)

lemma decrypt_error_iff:
  assumes "\<not> blank tok"
  shows "(decrypt lib key tok = Inl (Error ''Failed to decrypt data'')) =
       (length (split colon tok) \<noteq> 3 \<or> odd (length (split colon tok ! 2)) \<or>
        decipher lib key (from_hex (split colon tok ! 0)) AAD (from_hex (split colon tok ! 1))
          (from_hex (split colon tok ! 2)) = None)"
  by (auto simp: decrypt_parts [OF assms] split: option.splits)

lemma decrypt_only_error:
  "decrypt lib key tok = Inl e \<Longrightarrow> e = Error ''Failed to decrypt data''"
  by (cases "blank tok") (auto simp: decrypt_blank decrypt_parts split: if_splits option.splits)

lemma decrypt_odd_third_segment:
  assumes "d < 16"
  shows "decrypt lib key (to_hex iv @ colon # to_hex tag @ colon # to_hex ct @ [hex_digit d]) =
      Inl (Error ''Failed to decrypt data'')"
proof -
  have "unhex (hex_digit d) \<noteq> None" using assms by (simp add: hex_digit_unhex)
  then have "hex_digit d \<noteq> colon" using unhex_colon by metis
  then have "colon \<notin> set (to_hex ct @ [hex_digit d])" by (simp add: to_hex_no_colon)
  then have "split colon (to_hex iv @ colon # to_hex tag @ colon # to_hex ct @ [hex_digit d]) =
      [to_hex iv, to_hex tag, to_hex ct @ [hex_digit d]]"
    by (simp add: split_append_sep split_no_sep to_hex_no_colon)
  then show ?thesis
    by (simp add: decrypt_parts [OF token_not_blank] length_to_hex)
qed

text \<open>
  C7 (amended). For every token that is not blank, \<open>decrypt\<close> throws exactly when the token
  does not split into exactly 3 segments at its colons, or its third segment has an odd
  number of characters, or the decipher rejects the three decoded segments (a vector or
  a tag it does not accept, or a tag that does not verify); the error it throws is always
  \<open>Failed to decrypt data\<close>. In particular, for a token that \<open>encrypt\<close> produced, replacing
  one hexadecimal digit by a hexadecimal digit of another value makes \<open>decrypt\<close> throw,
  for a cipher that rejects what it produced once one byte of it is changed.
\<close>

theorem decrypt_fails_exactly:
  "(\<not> blank tok \<longrightarrow>
      ((decrypt lib key tok = Inl (Error ''Failed to decrypt data'')) =
         (length (split colon tok) \<noteq> 3 \<or> odd (length (split colon tok ! 2)) \<or>
          decipher lib key (from_hex (split colon tok ! 0)) AAD (from_hex (split colon tok ! 1))
            (from_hex (split colon tok ! 2)) = None))
      \<and> (\<forall>e. decrypt lib key tok = Inl e \<longrightarrow> e = Error ''Failed to decrypt data''))
   \<and> (\<not> blank s
       \<and> cipher lib key (fst (randomBytes ivLength r)) AAD (utf8_encode s) = Some (ct, tag)
       \<and> detects_tampering lib key (fst (randomBytes ivLength r)) tag ct
       \<and> fst (encrypt lib key s r) = Inr token
       \<and> i < length token \<and> unhex (token ! i) \<noteq> None
       \<and> unhex c' \<noteq> None \<and> unhex c' \<noteq> unhex (token ! i) \<longrightarrow>
       decrypt lib key (token[i := c']) = Inl (Error ''Failed to decrypt data''))"
proof (intro conjI impI)
  assume "\<not> blank tok"
  then show "(decrypt lib key tok = Inl (Error ''Failed to decrypt data'')) =
         (length (split colon tok) \<noteq> 3 \<or> odd (length (split colon tok ! 2)) \<or>
          decipher lib key (from_hex (split colon tok ! 0)) AAD (from_hex (split colon tok ! 1))
            (from_hex (split colon tok ! 2)) = None)"
    by (rule decrypt_error_iff)
next
  show "\<forall>e. decrypt lib key tok = Inl e \<longrightarrow> e = Error ''Failed to decrypt data''"
    using decrypt_only_error by blast
next
  assume a: "\<not> blank s
       \<and> cipher lib key (fst (randomBytes ivLength r)) AAD (utf8_encode s) = Some (ct, tag)
       \<and> detects_tampering lib key (fst (randomBytes ivLength r)) tag ct
       \<and> fst (encrypt lib key s r) = Inr token
       \<and> i < length token \<and> unhex (token ! i) \<noteq> None
       \<and> unhex c' \<noteq> None \<and> unhex c' \<noteq> unhex (token ! i)"
  then have "token = to_hex (fst (randomBytes ivLength r)) @ colon # to_hex tag @ colon # to_hex ct"
    using encrypt_token [of s lib key r ct tag] by simp
  with a show "decrypt lib key (token[i := c']) = Inl (Error ''Failed to decrypt data'')"
    using decrypt_flipped by blast
qed

theorem decrypt_fails_exactly_witness:
  "decrypt toy_crypto [1, 2, 3] (js ''a:b'') = Inl (Error ''Failed to decrypt data'')
   \<and> decrypt toy_crypto [1, 2, 3] (js ''00:00:0'') = Inl (Error ''Failed to decrypt data'')
   \<and> decrypt toy_crypto [1, 2, 3]
        ((to_hex (fst (randomBytes ivLength (\<lambda>i. i))) @ colon #
          to_hex (fst (randomBytes ivLength (\<lambda>i. i)) @ rev (utf8_encode (js ''Ada''))) @ colon #
          to_hex (rev (utf8_encode (js ''Ada''))))[0 := hex_digit 1]) =
       Inl (Error ''Failed to decrypt data'')"
proof -
  let ?iv = "fst (randomBytes ivLength (\<lambda>i. i))"
  let ?ct = "rev (utf8_encode (js ''Ada''))"
  let ?token = "to_hex ?iv @ colon # to_hex (?iv @ ?ct) @ colon # to_hex ?ct"
  have nb: "\<not> blank (js ''a:b'')" by (simp add: blank_iff js_def is_whitespace_def)
  have two: "length (split colon (js ''a:b'')) \<noteq> 3" by (simp add: js_def colon_def)
  have nb3: "\<not> blank (js ''00:00:0'')" by (simp add: blank_iff js_def is_whitespace_def)
  have odd3: "odd (length (split colon (js ''00:00:0'') ! 2))" by (simp add: js_def colon_def)
  have ns: "\<not> blank (js ''Ada'')" by (simp add: blank_iff js_def is_whitespace_def)
  have c: "cipher toy_crypto [1, 2, 3] ?iv AAD (utf8_encode (js ''Ada'')) = Some (?ct, ?iv @ ?ct)"
    by (simp add: toy_crypto_def)
  have d: "detects_tampering toy_crypto [1, 2, 3] ?iv (?iv @ ?ct) ?ct" by (rule toy_detects)
  have e: "fst (encrypt toy_crypto [1, 2, 3] (js ''Ada'') (\<lambda>i. i)) = Inr ?token"
    using encrypt_token [OF ns c] by simp
  have iv0: "?iv = 0 # map of_nat [1..<16]"
    by (simp add: randomBytes_def ivLength_def upt_conv_Cons)
  have at: "?token ! 0 = hex_digit 0" by (simp add: iv0 to_hex_Cons)
  have l: "0 < length ?token" by simp
  have old: "unhex (?token ! 0) \<noteq> None" by (simp add: at hex_digit_unhex)
  have new: "unhex (hex_digit 1) \<noteq> None" by (simp add: hex_digit_unhex)
  have ne: "unhex (hex_digit 1) \<noteq> unhex (?token ! 0)" by (simp add: at hex_digit_unhex)
  show ?thesis
    using decrypt_fails_exactly [of "js ''a:b''" toy_crypto "[1, 2, 3]" "js ''Ada''" "\<lambda>i. i"
        ?ct "?iv @ ?ct" ?token 0 "hex_digit 1"]
      decrypt_fails_exactly [of "js ''00:00:0''" toy_crypto "[1, 2, 3]" "js ''Ada''" "\<lambda>i. i"
        ?ct "?iv @ ?ct" ?token 0 "hex_digit 1"] nb two nb3 odd3 ns c d e l old new ne
    by blast
qed

text \<open>
  C7 as first stated covers every non-empty token. The token of one space is not empty
  and does not split into 3 segments, and \<open>decrypt\<close> returns it unchanged, whatever the
  cipher. The instance takes the small cipher.
\<close>

theorem decrypt_blank_token_counterexample:
  "[0x20] \<noteq> ([] :: utf16)
   \<and> length (split colon [0x20]) \<noteq> 3
   \<and> decrypt toy_crypto [1, 2, 3] [0x20] = Inr [0x20]"
proof -
  have "blank [0x20]" by (simp add: blank_iff is_whitespace_def)
  then show ?thesis by (simp add: decrypt_blank colon_def)
qed

subsection \<open>Age bounds of createStudent and updateStudent\<close>

lemma createStudent_try_out_of_range:
  assumes "age_out_of_range (age data)"
  shows "\<exists>e w' r'. createStudent_try lib key newId hub data ctx w r = (Inl e, w', r')
           \<and> students w' = students w
           \<and> ((\<exists>flags. enforceAccess (Some (ctx\<lparr>hubId := Some hub\<rparr>)) ''student'' ''create'' None = Inr flags)
                \<and> hub \<in> hubs w \<longrightarrow>
                e = BadRequestException ''Student age must be between 3 and 18'')"
  using assms by (auto simp: createStudent_try_def Let_def split: sum.splits)

lemma createStudent_out_of_range:
  assumes "age_out_of_range (age data)"
  shows "\<exists>e w' r'. createStudent lib key newId hub data ctx w r = (Inl e, w', r')
           \<and> students w' = students w
           \<and> ((\<exists>flags. enforceAccess (Some (ctx\<lparr>hubId := Some hub\<rparr>)) ''student'' ''create'' None = Inr flags)
                \<and> hub \<in> hubs w \<longrightarrow>
                e = BadRequestException ''Student age must be between 3 and 18'')"
proof -
  obtain e w' r' where t: "createStudent_try lib key newId hub data ctx w r = (Inl e, w', r')"
    and s: "students w' = students w"
    and b: "(\<exists>flags. enforceAccess (Some (ctx\<lparr>hubId := Some hub\<rparr>)) ''student'' ''create'' None = Inr flags)
                \<and> hub \<in> hubs w \<longrightarrow>
                e = BadRequestException ''Student age must be between 3 and 18''"
    using createStudent_try_out_of_range [OF assms] by blast
  show ?thesis
    using s b by (simp add: createStudent_def t)
qed

lemma updateStudent_try_out_of_range:
  assumes "age_out_of_range (age data)"
  shows "\<exists>e w' r'. updateStudent_try lib key studentId data ctx w r = (Inl e, w', r')
           \<and> students w' = students w
           \<and> (\<forall>student. find (\<lambda>s. student_id s = studentId) (students w) = Some student
                \<and> (\<exists>flags. enforceAccess (Some (ctx\<lparr>hubId := Some (student_hubId student)\<rparr>))
                              ''student'' ''update'' (Some studentId) = Inr flags) \<longrightarrow>
                e = BadRequestException ''Student age must be between 3 and 18'')"
  using assms by (auto simp: updateStudent_try_def Let_def split: sum.splits option.splits)

lemma updateStudent_out_of_range:
  assumes "age_out_of_range (age data)"
  shows "\<exists>e w' r'. updateStudent lib key studentId data ctx w r = (Inl e, w', r')
           \<and> students w' = students w
           \<and> (\<forall>student. find (\<lambda>s. student_id s = studentId) (students w) = Some student
                \<and> (\<exists>flags. enforceAccess (Some (ctx\<lparr>hubId := Some (student_hubId student)\<rparr>))
                              ''student'' ''update'' (Some studentId) = Inr flags) \<longrightarrow>
                e = BadRequestException ''Student age must be between 3 and 18'')"
proof -
  obtain e w' r' where t: "updateStudent_try lib key studentId data ctx w r = (Inl e, w', r')"
    and s: "students w' = students w"
    and b: "\<forall>student. find (\<lambda>s. student_id s = studentId) (students w) = Some student
                \<and> (\<exists>flags. enforceAccess (Some (ctx\<lparr>hubId := Some (student_hubId student)\<rparr>))
                              ''student'' ''update'' (Some studentId) = Inr flags) \<longrightarrow>
                e = BadRequestException ''Student age must be between 3 and 18''"
    using updateStudent_try_out_of_range [OF assms] by blast
  show ?thesis
    using s b by (simp add: updateStudent_def t)
qed

text \<open>
  C9 (amended). For every provided age outside [3, 18], \<open>createStudent\<close> and
  \<open>updateStudent\<close> throw and leave the student rows as they were. When the access check
  passes and the hub exists (for \<open>createStudent\<close>), or the student exists and the access
  check passes (for \<open>updateStudent\<close>), the exception is
  \<open>BadRequestException ''Student age must be between 3 and 18''\<close>.
\<close>

theorem age_out_of_range_rejected:
  "(age data = Some a \<and> (a < 3 \<or> a > 18) \<longrightarrow>
      (\<exists>e w' r'. createStudent lib key newId hub data ctx w r = (Inl e, w', r')
         \<and> students w' = students w
         \<and> ((\<exists>flags. enforceAccess (Some (ctx\<lparr>hubId := Some hub\<rparr>)) ''student'' ''create'' None =
                       Inr flags)
              \<and> hub \<in> hubs w \<longrightarrow>
              e = BadRequestException ''Student age must be between 3 and 18'')))
   \<and> (age update = Some a \<and> (a < 3 \<or> a > 18) \<longrightarrow>
      (\<exists>e w' r'. updateStudent lib key studentId update ctx w r = (Inl e, w', r')
         \<and> students w' = students w
         \<and> (\<forall>student. find (\<lambda>s. student_id s = studentId) (students w) = Some student
              \<and> (\<exists>flags. enforceAccess (Some (ctx\<lparr>hubId := Some (student_hubId student)\<rparr>))
                            ''student'' ''update'' (Some studentId) = Inr flags) \<longrightarrow>
              e = BadRequestException ''Student age must be between 3 and 18'')))"
proof (intro conjI impI)
  assume "age data = Some a \<and> (a < 3 \<or> a > 18)"
  then have "age_out_of_range (age data)" by (auto simp: age_out_of_range_def)
  then show "\<exists>e w' r'. createStudent lib key newId hub data ctx w r = (Inl e, w', r')
         \<and> students w' = students w
         \<and> ((\<exists>flags. enforceAccess (Some (ctx\<lparr>hubId := Some hub\<rparr>)) ''student'' ''create'' None =
                       Inr flags)
              \<and> hub \<in> hubs w \<longrightarrow>
              e = BadRequestException ''Student age must be between 3 and 18'')"
    by (rule createStudent_out_of_range)
next
  assume "age update = Some a \<and> (a < 3 \<or> a > 18)"
  then have "age_out_of_range (age update)" by (auto simp: age_out_of_range_def)
  then show "\<exists>e w' r'. updateStudent lib key studentId update ctx w r = (Inl e, w', r')
         \<and> students w' = students w
         \<and> (\<forall>student. find (\<lambda>s. student_id s = studentId) (students w) = Some student
              \<and> (\<exists>flags. enforceAccess (Some (ctx\<lparr>hubId := Some (student_hubId student)\<rparr>))
                            ''student'' ''update'' (Some studentId) = Inr flags) \<longrightarrow>
              e = BadRequestException ''Student age must be between 3 and 18'')"
    by (rule updateStudent_out_of_range)
qed

theorem age_out_of_range_rejected_witness:
  "fst (createStudent toy_crypto [1, 2, 3] ''id-1'' ''HUB-1''
          \<lparr>firstName = None, lastName = None, grade = None, age = Some 19, metadata = None\<rparr>
          \<lparr>userId = None, userType = System, hubId = None, ipAddress = None,
           userAgent = None, permissions = None\<rparr>
          \<lparr>students = [], hubs = {''HUB-1''}, auditLog = []\<rparr> (\<lambda>i. i)) =
     Inl (BadRequestException ''Student age must be between 3 and 18'')
   \<and> students (fst (snd (createStudent toy_crypto [1, 2, 3] ''id-1'' ''HUB-1''
          \<lparr>firstName = None, lastName = None, grade = None, age = Some 19, metadata = None\<rparr>
          \<lparr>userId = None, userType = System, hubId = None, ipAddress = None,
           userAgent = None, permissions = None\<rparr>
          \<lparr>students = [], hubs = {''HUB-1''}, auditLog = []\<rparr> (\<lambda>i. i)))) = []
   \<and> fst (updateStudent toy_crypto [1, 2, 3] ''s1''
          \<lparr>firstName = None, lastName = None, grade = None, age = Some 2, metadata = None,
           status = None\<rparr>
          \<lparr>userId = None, userType = System, hubId = None, ipAddress = None,
           userAgent = None, permissions = None\<rparr>
          \<lparr>students =
             [\<lparr>student_id = ''s1'', student_hubId = ''HUB-1'', studentCode = ''ABCD'',
               firstNameEncrypted = None, lastNameEncrypted = None, student_grade = None,
               student_age = Some 10, metadataEncrypted = None, student_status = Active,
               decrypted_firstName = None, decrypted_lastName = None,
               decrypted_metadata = None\<rparr>],
           hubs = {''HUB-1''}, auditLog = []\<rparr> (\<lambda>i. i)) =
     Inl (BadRequestException ''Student age must be between 3 and 18'')"
proof -
  let ?data = "\<lparr>firstName = None, lastName = None, grade = None, age = Some (19::real),
                 metadata = None\<rparr>"
  let ?ctx = "\<lparr>userId = None, userType = System, hubId = None, ipAddress = None,
                userAgent = None, permissions = None\<rparr>"
  let ?w = "\<lparr>students = [], hubs = {''HUB-1''}, auditLog = []\<rparr>"
  have acc: "\<exists>flags. enforceAccess (Some (?ctx\<lparr>hubId := Some ''HUB-1''\<rparr>)) ''student'' ''create'' None =
      Inr flags"
    by (simp add: enforceAccess_def checkAccess_def try_catch_def checkAccess_try_def
        accessRules_def)
  have a: "age ?data = Some 19 \<and> ((19::real) < 3 \<or> (19::real) > 18)" by simp
  have h: "''HUB-1'' \<in> hubs ?w" by simp
  obtain e w' r' where
    c: "createStudent toy_crypto [1, 2, 3] ''id-1'' ''HUB-1'' ?data ?ctx ?w (\<lambda>i. i) = (Inl e, w', r')"
    and s: "students w' = students ?w"
    and b: "(\<exists>flags. enforceAccess (Some (?ctx\<lparr>hubId := Some ''HUB-1''\<rparr>)) ''student'' ''create'' None =
                       Inr flags) \<and> ''HUB-1'' \<in> hubs ?w \<longrightarrow>
            e = BadRequestException ''Student age must be between 3 and 18''"
    using age_out_of_range_rejected [of ?data 19 toy_crypto "[1, 2, 3]" "''id-1''" "''HUB-1''"
        ?ctx ?w "\<lambda>i. i"] a
    by blast
  from b acc h have e: "e = BadRequestException ''Student age must be between 3 and 18''"
    by blast
  let ?update = "\<lparr>firstName = None, lastName = None, grade = None, age = Some (2::real),
                   metadata = None, status = None\<rparr>"
  let ?row = "\<lparr>student_id = ''s1'', student_hubId = ''HUB-1'', studentCode = ''ABCD'',
               firstNameEncrypted = None, lastNameEncrypted = None, student_grade = None,
               student_age = Some 10, metadataEncrypted = None, student_status = Active,
               decrypted_firstName = None, decrypted_lastName = None,
               decrypted_metadata = None\<rparr>"
  let ?w1 = "\<lparr>students = [?row], hubs = {''HUB-1''}, auditLog = []\<rparr>"
  have acc1: "\<exists>flags. enforceAccess (Some (?ctx\<lparr>hubId := Some (student_hubId ?row)\<rparr>))
      ''student'' ''update'' (Some ''s1'') = Inr flags"
    by (simp add: enforceAccess_def checkAccess_def try_catch_def checkAccess_try_def
        accessRules_def)
  have f: "find (\<lambda>s. student_id s = ''s1'') (students ?w1) = Some ?row" by simp
  have a1: "age ?update = Some 2 \<and> ((2::real) < 3 \<or> (2::real) > 18)" by simp
  obtain e1 w1' r1' where
    c1: "updateStudent toy_crypto [1, 2, 3] ''s1'' ?update ?ctx ?w1 (\<lambda>i. i) = (Inl e1, w1', r1')"
    and b1: "\<forall>student. find (\<lambda>s. student_id s = ''s1'') (students ?w1) = Some student
              \<and> (\<exists>flags. enforceAccess (Some (?ctx\<lparr>hubId := Some (student_hubId student)\<rparr>))
                            ''student'' ''update'' (Some ''s1'') = Inr flags) \<longrightarrow>
              e1 = BadRequestException ''Student age must be between 3 and 18''"
    using age_out_of_range_rejected [where update = ?update and a = 2 and lib = toy_crypto
        and key = "[1, 2, 3]" and studentId = "''s1''" and ctx = ?ctx and w = ?w1
        and r = "\<lambda>i. i"] a1
    by blast
  from b1 f acc1 have e1: "e1 = BadRequestException ''Student age must be between 3 and 18''"
    by blast
  from c s e c1 e1 show ?thesis by simp
qed

text \<open>
  C9 as first stated has every age outside the range rejected with that
  \<open>BadRequestException\<close>. The access check comes first: for an anonymous caller the
  request with age 2 is rejected with a \<open>ForbiddenException\<close>.
\<close>

theorem createStudent_forbidden_first_counterexample:
  "age \<lparr>firstName = None, lastName = None, grade = None, age = Some 2, metadata = None\<rparr> =
     Some 2
   \<and> fst (createStudent toy_crypto [1, 2, 3] ''id-1'' ''HUB-1''
          \<lparr>firstName = None, lastName = None, grade = None, age = Some 2, metadata = None\<rparr>
          \<lparr>userId = None, userType = Anonymous, hubId = None, ipAddress = None,
           userAgent = None, permissions = None\<rparr>
          \<lparr>students = [], hubs = {''HUB-1''}, auditLog = []\<rparr> (\<lambda>i. i)) =
     Inl (ForbiddenException
            (''User type '' @ [CHR 0x27] @ ''anonymous'' @ [CHR 0x27] @
             '' not allowed for student:create''))"
  by (simp add: createStudent_def createStudent_try_def enforceAccess_def checkAccess_def
      try_catch_def checkAccess_try_def accessRules_def)

end
